theory Spec2Isabelle
  imports Main "HOL-Library.Sublist" "HOL-Library.AList"
begin

section \<open>Python values and strings\<close>

text \<open>
  A Python \<open>str\<close> is modelled as a HOL \<open>string\<close>: every \<open>char\<close> stands for one code
  point below 256, so \<open>length\<close> is Python's \<open>len\<close> on such text.  File contents
  (\<open>bytes\<close>) are lists of \<open>char\<close> as well.
\<close>

type_synonym path = string
type_synonym bytes = string

text \<open>
  Exceptions are values.  \<open>HTTPException\<close> carries status code and detail,
  \<open>UnicodeDecodeError\<close> is told apart because \<open>_extract_from_txt\<close> catches it by name,
  and \<open>Exception\<close> is any other exception, with the text that \<open>str(e)\<close> gives.
\<close>

datatype exn =
    HTTPException int string
  | UnicodeDecodeError string
  | Exception string

definition nl :: string where
  "nl = [CHR 0x0A]"

definition digit :: "nat \<Rightarrow> char" where
  "digit d = ''0123456789'' ! d"

text \<open>\<open>str(n)\<close> of a natural number: its decimal digits.\<close>

fun str_nat :: "nat \<Rightarrow> string" where
  "str_nat n = (if n < 10 then [digit n] else str_nat (n div 10) @ [digit (n mod 10)])"

declare str_nat.simps [simp del]

definition str_int :: "int \<Rightarrow> string" where
  "str_int i = (if i < 0 then CHR ''-'' # str_nat (nat (- i)) else str_nat (nat i))"

text \<open>\<open>str(e)\<close>; Starlette renders an \<open>HTTPException\<close> as \<open>"<status>: <detail>"\<close>.\<close>

fun exn_str :: "exn \<Rightarrow> string" where
  "exn_str (HTTPException code detail) = str_int code @ '': '' @ detail"
| "exn_str (UnicodeDecodeError msg) = msg"
| "exn_str (Exception msg) = msg"

text \<open>\<open>sep.join(parts)\<close>.\<close>

fun join :: "string \<Rightarrow> string list \<Rightarrow> string" where
  "join sep [] = []"
| "join sep [x] = x"
| "join sep (x # y # ys) = x @ sep @ join sep (y # ys)"

text \<open>\<open>s.split(sep)\<close> for a separator of one character: never the empty list.\<close>

fun split_on :: "char \<Rightarrow> string \<Rightarrow> string list" where
  "split_on sep [] = [[]]"
| "split_on sep (c # cs) =
     (if c = sep then [] # split_on sep cs
      else (case split_on sep cs of
              [] \<Rightarrow> [[c]]
            | w # ws \<Rightarrow> (c # w) # ws))"

text \<open>\<open>s.startswith(p)\<close> and \<open>sub in s\<close>.\<close>

definition startswith :: "string \<Rightarrow> string \<Rightarrow> bool" where
  "startswith p s = (take (length p) s = p)"

fun contains :: "string \<Rightarrow> string \<Rightarrow> bool" where
  "contains sub [] = (sub = [])"
| "contains sub (c # cs) = (startswith sub (c # cs) \<or> contains sub cs)"

text \<open>
  \<open>s.replace(old, new)\<close>: the occurrences of \<open>old\<close> are found from the left and do
  not overlap; an empty \<open>old\<close> matches before every character and at the end.
\<close>

function replace :: "string \<Rightarrow> string \<Rightarrow> string \<Rightarrow> string" where
  "replace old new [] = (if old = [] then new else [])"
| "replace old new (c # cs) =
     (if old = [] then new @ c # replace old new cs
      else if startswith old (c # cs) then new @ replace old new (drop (length old) (c # cs))
      else c # replace old new cs)"
  by pat_completeness auto
termination
  by (relation "measure (\<lambda>(old, new, s). length s)") auto

text \<open>
  \<open>str.isspace\<close> on the code points below 256: TAB to CR, FS to US, space, NEL and
  NBSP.  \<open>s.strip()\<close> removes them at both ends, \<open>s.lstrip(chars)\<close> removes leading
  characters that occur in \<open>chars\<close>.
\<close>

definition isspace :: "char \<Rightarrow> bool" where
  "isspace c = (let n = (of_char c :: nat) in
     (9 \<le> n \<and> n \<le> 13) \<or> (28 \<le> n \<and> n \<le> 32) \<or> n = 133 \<or> n = 160)"

definition strip :: "string \<Rightarrow> string" where
  "strip s = rev (dropWhile isspace (rev (dropWhile isspace s)))"

definition lstrip :: "string \<Rightarrow> string \<Rightarrow> string" where
  "lstrip chars s = dropWhile (\<lambda>c. c \<in> set chars) s"

text \<open>
  \<open>str.lower\<close> on the code points below 256: \<open>A\<close> to \<open>Z\<close> and the Latin-1 capitals
  (0xC0 to 0xDE without the multiplication sign 0xD7) move up by 32, which sets bit 5.
\<close>

definition isupper :: "char \<Rightarrow> bool" where
  "isupper c = (let n = (of_char c :: nat) in
     (65 \<le> n \<and> n \<le> 90) \<or> (192 \<le> n \<and> n \<le> 222 \<and> n \<noteq> 215))"

fun lower_char :: "char \<Rightarrow> char" where
  "lower_char (Char b0 b1 b2 b3 b4 b5 b6 b7) =
     (if isupper (Char b0 b1 b2 b3 b4 b5 b6 b7) then Char b0 b1 b2 b3 b4 True b6 b7
      else Char b0 b1 b2 b3 b4 b5 b6 b7)"

definition lower :: "string \<Rightarrow> string" where
  "lower s = map lower_char s"

section \<open>Text extraction (app/text\_extraction.py)\<close>

text \<open>
  What the extractors read through libraries is a parameter: the decoded text of a file
  (\<open>aiofiles.open(...).read()\<close> with either encoding), the page texts of \<open>PdfReader\<close>,
  the paragraph texts of \<open>Document\<close>, and for CSV the 1024-character sample, the
  delimiter \<open>csv.Sniffer().sniff(sample).delimiter\<close> and the rows that \<open>csv.reader\<close>
  yields.  Pages and rows are produced one at a time, so each of them may raise on its own.
\<close>

record readers =
  read_utf8 :: "path \<Rightarrow> exn + string"
  read_latin1 :: "path \<Rightarrow> exn + string"
  PdfReader_pages :: "path \<Rightarrow> exn + (exn + string) list"
  Document_paragraphs :: "path \<Rightarrow> exn + string list"
  csv_sample :: "path \<Rightarrow> exn + string"
  csv_sniff :: "string \<Rightarrow> exn + char"
  csv_reader :: "path \<Rightarrow> char \<Rightarrow> (exn + string list) list"

definition max_text_length :: nat where
  "max_text_length = 50000"

text \<open>
  The page loop of \<open>_extract_from_pdf\<close>: \<open>text_parts\<close> is the accumulator, the length
  check follows every page, and a page that raises ends in the handler (\<open>None\<close>).
\<close>

fun pdf_loop :: "(exn + string) list \<Rightarrow> string list \<Rightarrow> string option" where
  "pdf_loop [] text_parts = Some (join nl text_parts)"
| "pdf_loop (page # pages) text_parts =
     (case page of
        Inl e \<Rightarrow> None
      | Inr text \<Rightarrow>
          (let text_parts' = (if text \<noteq> [] then text_parts @ [text] else text_parts);
               combined_text = join nl text_parts'
           in if length combined_text > max_text_length
              then Some (take max_text_length combined_text)
              else pdf_loop pages text_parts'))"

definition extract_from_pdf :: "readers \<Rightarrow> path \<Rightarrow> string option" where
  "extract_from_pdf rd file_path =
     (case PdfReader_pages rd file_path of
        Inl e \<Rightarrow> None
      | Inr pages \<Rightarrow> pdf_loop pages [])"

fun docx_loop :: "string list \<Rightarrow> string list \<Rightarrow> string option" where
  "docx_loop [] text_parts = Some (join nl text_parts)"
| "docx_loop (paragraph # paragraphs) text_parts =
     (let text_parts' = (if strip paragraph \<noteq> [] then text_parts @ [paragraph] else text_parts);
          combined_text = join nl text_parts'
      in if length combined_text > max_text_length
         then Some (take max_text_length combined_text)
         else docx_loop paragraphs text_parts')"

definition extract_from_docx :: "readers \<Rightarrow> path \<Rightarrow> string option" where
  "extract_from_docx rd file_path =
     (case Document_paragraphs rd file_path of
        Inl e \<Rightarrow> None
      | Inr paragraphs \<Rightarrow> docx_loop paragraphs [])"

definition cap_text :: "string \<Rightarrow> string" where
  "cap_text content =
     (if length content > max_text_length then take max_text_length content else content)"

definition extract_from_txt :: "readers \<Rightarrow> path \<Rightarrow> string option" where
  "extract_from_txt rd file_path =
     (case read_utf8 rd file_path of
        Inr content \<Rightarrow> Some (cap_text content)
      | Inl (UnicodeDecodeError msg) \<Rightarrow>
          (case read_latin1 rd file_path of
             Inr content \<Rightarrow> Some (cap_text content)
           | Inl e \<Rightarrow> None)
      | Inl e \<Rightarrow> None)"

text \<open>The line of one CSV row: the cells are joined with a comma and a space.\<close>

definition csv_line :: "nat \<Rightarrow> string list \<Rightarrow> string" where
  "csv_line row_num row =
     (if row_num = 0 then ''Headers: '' @ join '', '' row
      else ''Row '' @ str_nat row_num @ '': '' @ join '', '' row)"

fun csv_loop :: "nat \<Rightarrow> (exn + string list) list \<Rightarrow> string list \<Rightarrow> string option" where
  "csv_loop row_num [] text_parts = Some (join nl text_parts)"
| "csv_loop row_num (r # rows) text_parts =
     (case r of
        Inl e \<Rightarrow> None
      | Inr row \<Rightarrow>
          (let text_parts' = text_parts @ [csv_line row_num row];
               combined_text = join nl text_parts'
           in if length combined_text > max_text_length
              then Some (take max_text_length combined_text)
              else csv_loop (Suc row_num) rows text_parts'))"

definition extract_from_csv :: "readers \<Rightarrow> path \<Rightarrow> string option" where
  "extract_from_csv rd file_path =
     (case csv_sample rd file_path of
        Inl e \<Rightarrow> None
      | Inr sample \<Rightarrow>
          (case csv_sniff rd sample of
             Inl e \<Rightarrow> None
           | Inr delimiter \<Rightarrow> csv_loop 0 (csv_reader rd file_path delimiter) []))"

text \<open>
  \<open>re.sub(r'\[([^\]]+)\]\([^)]+\)', r'\1', line)\<close>.  At a position the pattern matches
  in one way only: an opening bracket, the longest non-empty run without a closing
  bracket, \<open>](\<close>, the longest non-empty run without a closing parenthesis, and the
  closing parenthesis; a shorter run is never followed by the character the pattern wants
  next.  \<open>match_link\<close> gives the group and the text after the match.
\<close>

definition match_link :: "string \<Rightarrow> (string \<times> string) option" where
  "match_link s =
     (case s of
        [] \<Rightarrow> None
      | c # r1 \<Rightarrow>
          if c \<noteq> CHR ''['' then None
          else
            (let text = takeWhile (\<lambda>x. x \<noteq> CHR '']'') r1;
                 r2 = dropWhile (\<lambda>x. x \<noteq> CHR '']'') r1
             in if text = [] then None
                else
                  (case r2 of
                     rb # lp # r3 \<Rightarrow>
                       if lp \<noteq> CHR ''('' then None
                       else
                         (let url = takeWhile (\<lambda>x. x \<noteq> CHR '')'') r3;
                              r4 = dropWhile (\<lambda>x. x \<noteq> CHR '')'') r3
                          in if url = [] then None
                             else (case r4 of
                                     [] \<Rightarrow> None
                                   | rp # r5 \<Rightarrow> Some (text, r5)))
                   | _ \<Rightarrow> None)))"

lemma match_link_shorter:
  "match_link s = Some (text, rest) \<Longrightarrow> length rest < length s"
proof -
  have d: "length (dropWhile P xs) \<le> length xs" for P :: "char \<Rightarrow> bool" and xs
    by (induction xs) auto
  assume m: "match_link s = Some (text, rest)"
  then obtain c r1 where s: "s = c # r1"
    by (cases s) (auto simp: match_link_def)
  from m s obtain rb lp r3 where r2: "dropWhile (\<lambda>x. x \<noteq> CHR '']'') r1 = rb # lp # r3"
    by (auto simp: match_link_def Let_def split: if_splits list.splits)
  from m s r2 obtain rp where r4: "dropWhile (\<lambda>x. x \<noteq> CHR '')'') r3 = rp # rest"
    by (auto simp: match_link_def Let_def split: if_splits list.splits)
  have "length rest < length r3"
    using d [of "\<lambda>x. x \<noteq> CHR '')''" r3] r4 by simp
  moreover have "length r3 < length r1"
    using d [of "\<lambda>x. x \<noteq> CHR '']''" r1] r2 by simp
  ultimately show ?thesis
    using s by simp
qed

function re_sub_link :: "string \<Rightarrow> string" where
  "re_sub_link [] = []"
| "re_sub_link (c # cs) =
     (case match_link (c # cs) of
        Some (text, rest) \<Rightarrow> text @ re_sub_link rest
      | None \<Rightarrow> c # re_sub_link cs)"
  by pat_completeness auto
termination
  by (relation "measure length") (auto dest: match_link_shorter)

text \<open>
  The loop of \<open>_clean_markdown\<close> over the lines: one \<open>if\<close>/\<open>elif\<close> chain, so a line
  gets the first rule that applies and no other.
\<close>

fun clean_lines :: "string list \<Rightarrow> string list" where
  "clean_lines [] = []"
| "clean_lines (line # lines) =
     (if startswith ''#'' line then strip (lstrip ''#'' line) # clean_lines lines
      else if startswith ''```'' line then clean_lines lines
      else if contains ''`'' line then replace ''`'' '''' line # clean_lines lines
      else if contains ''**'' line \<or> contains ''*'' line
        then replace ''*'' '''' (replace ''**'' '''' line) # clean_lines lines
      else if contains ''['' line \<and> contains '']'' line then re_sub_link line # clean_lines lines
      else line # clean_lines lines)"

definition clean_markdown :: "string \<Rightarrow> string" where
  "clean_markdown content = join nl (clean_lines (split_on (CHR 0x0A) content))"

definition extract_from_markdown :: "readers \<Rightarrow> path \<Rightarrow> string option" where
  "extract_from_markdown rd file_path =
     (case read_utf8 rd file_path of
        Inl e \<Rightarrow> None
      | Inr content \<Rightarrow> Some (cap_text (clean_markdown content)))"

text \<open>
  The dispatch of \<open>extract_text\<close>.  Every extractor has caught its own exceptions, so the
  outer handler has nothing left to catch and the result is a text or \<open>None\<close>.
\<close>

definition extract_text :: "readers \<Rightarrow> path \<Rightarrow> string \<Rightarrow> string option" where
  "extract_text rd file_path mime_type =
     (if mime_type = ''application/pdf'' then extract_from_pdf rd file_path
      else if mime_type = ''application/vnd.openxmlformats-officedocument.wordprocessingml.document''
        then extract_from_docx rd file_path
      else if mime_type = ''text/plain'' then extract_from_txt rd file_path
      else if mime_type = ''text/csv'' then extract_from_csv rd file_path
      else if mime_type = ''text/markdown'' then extract_from_markdown rd file_path
      else extract_from_txt rd file_path)"

section \<open>File service (app/file\_service.py)\<close>

subsection \<open>Data\<close>

text \<open>The values a metadata dictionary holds, and the dictionary itself.\<close>

datatype pyvalue = PyNone | PyStr string | PyInt int

type_synonym dict = "string \<rightharpoonup> pyvalue"

text \<open>
  The \<open>UploadFile\<close> of the request: the name and the size are attributes the client
  declares, both optional; the content is what \<open>file.read()\<close> returns.
\<close>

record UploadFile =
  upload_filename :: "string option"
  upload_size :: "int option"
  upload_content :: bytes

text \<open>
  Modelled from the spec: the \<open>File\<close> model, which app/models.py does not hold.  Its
  fields are the ones \<open>upload_file\<close> passes to the constructor, the generated unique
  id, and \<open>extracted_text\<close>, unset (\<open>None\<close>) until \<open>process_file\<close> assigns it.
\<close>

record File =
  file_id :: string
  filename :: string
  original_filename :: "string option"
  file_path :: path
  file_size :: pyvalue
  mime_type :: pyvalue
  file_type :: string
  uploaded_by :: string
  project_id :: "string option"
  task_id :: "string option"
  metadata :: dict
  processing_status :: string
  extracted_text :: "string option"

text \<open>
  What the service calls and does not define itself is a parameter: the sanitiser of the
  \<open>secure_filename\<close> package, the stream of \<open>uuid.uuid4()\<close> values,
  \<open>magic.from_file\<close>, the digest of \<open>hashlib.sha256\<close>, the operating system's
  refusals to open, write or remove a path, the outcome of the n-th \<open>db.commit()\<close> of
  the session, and the two processors the service holds as attributes,
  \<open>text_extractor.extract_text\<close> and \<open>audio_processor.get_metadata\<close> (the module
  app/audio\_processing.py is not among the sources).
\<close>

record env =
  upload_dir :: path
  secure_filename :: "string \<Rightarrow> string"
  uuid4 :: "nat \<Rightarrow> string"
  magic_from_file :: "path \<Rightarrow> bytes \<Rightarrow> exn + string"
  sha256_hexdigest :: "bytes \<Rightarrow> string"
  open_error :: "path \<Rightarrow> string option"
  write_error :: "path \<Rightarrow> string option"
  remove_error :: "path \<Rightarrow> string option"
  commit_error :: "nat \<Rightarrow> string option"
  text_extractor :: "path \<Rightarrow> pyvalue \<Rightarrow> exn + string option"
  audio_get_metadata :: "path \<Rightarrow> exn + dict"

text \<open>
  The state the service works on: the files on disk, the committed rows of the table, and
  the counters of the uuids drawn and the commits issued.  \<open>committed\<close> records every
  snapshot a successful commit has written, oldest first, so that the states a row has
  passed through can be observed.
\<close>

record world =
  disk :: "(path \<times> bytes) list"
  db :: "File list"
  committed :: "File list"
  uuids :: nat
  commits :: nat

text \<open>
  The extractor the service constructs: \<open>TextExtractor().extract_text\<close> over given
  readers.  It returns and never raises; a MIME type that is not a string equals none of
  the literals and falls to the plain-text branch.
\<close>

definition TextExtractor :: "readers \<Rightarrow> path \<Rightarrow> pyvalue \<Rightarrow> exn + string option" where
  "TextExtractor rd file_path' mime =
     Inr (case mime of
            PyStr m \<Rightarrow> extract_text rd file_path' m
          | _ \<Rightarrow> extract_from_txt rd file_path')"

subsection \<open>Paths\<close>

text \<open>
  \<open>Path(s).name\<close> on POSIX: the last component, where empty components and \<open>.\<close> do
  not count.  \<open>Path(s).suffix\<close>: the name from its last dot on, unless that dot is the
  first or the last character of the name.
\<close>

definition path_name :: "string \<Rightarrow> string" where
  "path_name s =
     (case rev (filter (\<lambda>part. part \<noteq> [] \<and> part \<noteq> ''.'') (split_on (CHR ''/'') s)) of
        [] \<Rightarrow> []
      | part # parts \<Rightarrow> part)"

definition rfind_dot :: "string \<Rightarrow> nat option" where
  "rfind_dot name =
     (if CHR ''.'' \<in> set name
      then Some (length name - 1 - length (takeWhile (\<lambda>c. c \<noteq> CHR ''.'') (rev name)))
      else None)"

definition path_suffix :: "string \<Rightarrow> string" where
  "path_suffix s =
     (let name = path_name s
      in case rfind_dot name of
           None \<Rightarrow> []
         | Some i \<Rightarrow> if 0 < i \<and> i < length name - 1 then drop i name else [])"

subsection \<open>Intake\<close>

definition allowed_extensions :: "(string \<times> string list) list" where
  "allowed_extensions =
     [(''document'', [''.pdf'', ''.docx'', ''.txt'', ''.csv'', ''.md'']),
      (''audio'', [''.mp3'', ''.wav'', ''.m4a'']),
      (''image'', [''.jpg'', ''.jpeg'', ''.png'', ''.gif'']),
      (''other'', [''.zip'', ''.json'', ''.xml''])]"

definition max_file_size :: int where
  "max_file_size = 50 * 1024 * 1024"

fun find_file_type :: "string \<Rightarrow> (string \<times> string list) list \<Rightarrow> string" where
  "find_file_type ext [] = ''other''"
| "find_file_type ext ((file_type', extensions) # items) =
     (if ext \<in> set extensions then file_type' else find_file_type ext items)"

definition get_file_type :: "string \<Rightarrow> string" where
  "get_file_type name = find_file_type (lower (path_suffix name)) allowed_extensions"

record validation =
  secure_name :: string
  validated_type :: string
  extension :: string

definition all_allowed :: "string list" where
  "all_allowed = concat (map snd allowed_extensions)"

definition validate_file :: "env \<Rightarrow> UploadFile \<Rightarrow> exn + validation" where
  "validate_file ev file =
     (case upload_filename file of
        None \<Rightarrow> Inl (HTTPException 400 ''No filename provided'')
      | Some name \<Rightarrow>
          if name = [] then Inl (HTTPException 400 ''No filename provided'')
          else if (case upload_size file of
                     None \<Rightarrow> False
                   | Some nbytes \<Rightarrow> nbytes \<noteq> 0 \<and> nbytes > max_file_size)
            then Inl (HTTPException 413
                   (''File too large. Maximum size is ''
                      @ str_int (max_file_size div (1024 * 1024)) @ ''MB''))
          else
            (let secure = secure_filename ev name
             in if secure = [] then Inl (HTTPException 400 ''Invalid filename'')
                else
                  (let file_type' = get_file_type secure;
                       ext = lower (path_suffix secure)
                   in if ext \<notin> set all_allowed
                      then Inl (HTTPException 415
                             (''File type not allowed. Supported: '' @ join '', '' all_allowed))
                      else Inr \<lparr>secure_name = secure, validated_type = file_type',
                                extension = ext\<rparr>)))"

subsection \<open>Storage and identity\<close>

definition exists :: "world \<Rightarrow> path \<Rightarrow> bool" where
  "exists w p = (map_of (disk w) p \<noteq> None)"

definition getsize :: "world \<Rightarrow> path \<Rightarrow> exn + int" where
  "getsize w p =
     (case map_of (disk w) p of
        None \<Rightarrow> Inl (Exception ''No such file or directory'')
      | Some content \<Rightarrow> Inr (int (length content)))"

definition os_remove :: "env \<Rightarrow> path \<Rightarrow> world \<Rightarrow> (exn + unit) \<times> world" where
  "os_remove ev p w =
     (case map_of (disk w) p of
        None \<Rightarrow> (Inl (Exception ''No such file or directory''), w)
      | Some content \<Rightarrow>
          (case remove_error ev p of
             Some msg \<Rightarrow> (Inl (Exception msg), w)
           | None \<Rightarrow> (Inr (), w\<lparr>disk := AList.delete p (disk w)\<rparr>)))"

text \<open>
  \<open>save_file\<close>: the stored name is a fresh uuid followed by the suffix of the name as
  submitted, under the upload directory.  A refusal to open the path for writing raises
  and leaves no file.
\<close>

definition save_file :: "env \<Rightarrow> UploadFile \<Rightarrow> world \<Rightarrow> (exn + path) \<times> world" where
  "save_file ev file w =
     (case upload_filename file of
        None \<Rightarrow> (Inl (Exception ''expected str, bytes or os.PathLike object, not NoneType''), w)
      | Some name \<Rightarrow>
          (let unique_filename = uuid4 ev (uuids w) @ path_suffix name;
               file_path' = upload_dir ev @ ''/'' @ unique_filename;
               w1 = w\<lparr>uuids := Suc (uuids w)\<rparr>
           in case write_error ev file_path' of
                Some msg \<Rightarrow> (Inl (Exception msg), w1)
              | None \<Rightarrow>
                  (Inr file_path',
                   w1\<lparr>disk := AList.update file_path' (upload_content file) (disk w1)\<rparr>)))"

text \<open>
  \<open>_calculate_file_hash\<close>: the file is read in chunks of 4096 bytes until a read
  returns nothing; the hash object is the bytes it has been fed, and \<open>hexdigest\<close>
  applies SHA-256 to them.
\<close>

function hash_loop :: "bytes \<Rightarrow> bytes \<Rightarrow> bytes" where
  "hash_loop unread fed =
     (let chunk = take 4096 unread
      in if chunk = [] then fed else hash_loop (drop 4096 unread) (fed @ chunk))"
  by pat_completeness auto
termination
  by (relation "measure (\<lambda>(unread, fed). length unread)") auto

declare hash_loop.simps [simp del]

definition calculate_file_hash :: "env \<Rightarrow> world \<Rightarrow> path \<Rightarrow> exn + string" where
  "calculate_file_hash ev w p =
     (case map_of (disk w) p of
        None \<Rightarrow> Inl (Exception ''No such file or directory'')
      | Some content \<Rightarrow>
          (case open_error ev p of
             Some msg \<Rightarrow> Inl (Exception msg)
           | None \<Rightarrow> Inr (sha256_hexdigest ev (hash_loop content []))))"

text \<open>
  \<open>get_file_metadata\<close>: one handler around the MIME type, the size and the digest; a
  failure of any of the three gives the fallback dictionary and is not raised again.
\<close>

definition sniff_size_hash :: "env \<Rightarrow> world \<Rightarrow> path \<Rightarrow> exn + dict" where
  "sniff_size_hash ev w p =
     (case (case map_of (disk w) p of
              None \<Rightarrow> Inl (Exception ''No such file or directory'')
            | Some content \<Rightarrow> magic_from_file ev p content) of
        Inl e \<Rightarrow> Inl e
      | Inr mime \<Rightarrow>
          (case getsize w p of
             Inl e \<Rightarrow> Inl e
           | Inr nbytes \<Rightarrow>
               (case calculate_file_hash ev w p of
                  Inl e \<Rightarrow> Inl e
                | Inr digest \<Rightarrow>
                    Inr [''mime_type'' \<mapsto> PyStr mime, ''file_size'' \<mapsto> PyInt nbytes,
                         ''hash'' \<mapsto> PyStr digest])))"

definition get_file_metadata :: "env \<Rightarrow> world \<Rightarrow> path \<Rightarrow> dict" where
  "get_file_metadata ev w p =
     (case sniff_size_hash ev w p of
        Inr m \<Rightarrow> m
      | Inl e \<Rightarrow>
          [''mime_type'' \<mapsto> PyStr ''application/octet-stream'',
           ''file_size'' \<mapsto> PyInt (case getsize w p of Inr nbytes \<Rightarrow> nbytes | Inl e' \<Rightarrow> 0),
           ''hash'' \<mapsto> PyNone,
           ''error'' \<mapsto> PyStr (exn_str e)])"

subsection \<open>The record store\<close>

text \<open>
  A commit writes the state of the record into its row (inserting the row when the id is
  new) or raises and writes nothing.  Reading the table does not fail.
\<close>

definition db_upsert :: "File \<Rightarrow> File list \<Rightarrow> File list" where
  "db_upsert r rows =
     (if file_id r \<in> file_id ` set rows
      then map (\<lambda>x. if file_id x = file_id r then r else x) rows
      else rows @ [r])"

definition db_commit :: "env \<Rightarrow> File \<Rightarrow> world \<Rightarrow> (exn + unit) \<times> world" where
  "db_commit ev r w =
     (case commit_error ev (commits w) of
        Some msg \<Rightarrow> (Inl (Exception msg), w\<lparr>commits := Suc (commits w)\<rparr>)
      | None \<Rightarrow>
          (Inr (), w\<lparr>db := db_upsert r (db w), committed := committed w @ [r],
                     commits := Suc (commits w)\<rparr>))"

subsection \<open>Processing\<close>

text \<open>
  The \<open>try\<close> block of \<open>process_file\<close>.  The record is an object that the block
  changes in place, so the result carries the record as it stands when the block ends or
  raises.
\<close>

definition process_file_try :: "env \<Rightarrow> File \<Rightarrow> world \<Rightarrow> exn option \<times> File \<times> world" where
  "process_file_try ev file_record w =
     (let r1 = file_record\<lparr>processing_status := ''processing''\<rparr>
      in case db_commit ev r1 w of
           (Inl e, w1) \<Rightarrow> (Some e, r1, w1)
         | (Inr u, w1) \<Rightarrow>
             (case (if file_type r1 = ''document''
                    then (case text_extractor ev (file_path r1) (mime_type r1) of
                            Inl e \<Rightarrow> Inl e
                          | Inr text \<Rightarrow> Inr (text, r1))
                    else if file_type r1 = ''audio''
                    then (case audio_get_metadata ev (file_path r1) of
                            Inl e \<Rightarrow> Inl e
                          | Inr audio_metadata \<Rightarrow>
                              Inr (None, r1\<lparr>metadata := metadata r1 ++ audio_metadata\<rparr>))
                    else Inr (None, r1)) of
                Inl e \<Rightarrow> (Some e, r1, w1)
              | Inr (text, r2) \<Rightarrow>
                  (let r3 = (if text \<noteq> None \<and> text \<noteq> Some []
                             then r2\<lparr>extracted_text := text\<rparr> else r2);
                       r4 = r3\<lparr>processing_status := ''completed''\<rparr>
                   in case db_commit ev r4 w1 of
                        (Inl e, w2) \<Rightarrow> (Some e, r4, w2)
                      | (Inr u', w2) \<Rightarrow> (None, r4, w2))))"

text \<open>
  \<open>process_file\<close>: whatever the block raises is handled by marking the record failed
  and merging the description of the error into its metadata.  Only the commit inside
  the handler can make \<open>process_file\<close> itself raise.
\<close>

definition process_file :: "env \<Rightarrow> File \<Rightarrow> world \<Rightarrow> exn option \<times> File \<times> world" where
  "process_file ev file_record w =
     (case process_file_try ev file_record w of
        (None, r, w1) \<Rightarrow> (None, r, w1)
      | (Some e, r, w1) \<Rightarrow>
          (let r' = r\<lparr>processing_status := ''failed'',
                       metadata := (metadata r)(''processing_error'' \<mapsto> PyStr (exn_str e))\<rparr>
           in case db_commit ev r' w1 of
                (Inl e', w2) \<Rightarrow> (Some e', r', w2)
              | (Inr u, w2) \<Rightarrow> (None, r', w2)))"

subsection \<open>Upload\<close>

definition getitem :: "dict \<Rightarrow> string \<Rightarrow> exn + pyvalue" where
  "getitem d k = (case d k of None \<Rightarrow> Inl (Exception k) | Some v \<Rightarrow> Inr v)"

text \<open>The \<open>try\<close> block of \<open>upload_file\<close>, entered once the blob is on disk.\<close>

definition upload_try ::
  "env \<Rightarrow> UploadFile \<Rightarrow> validation \<Rightarrow> path \<Rightarrow> string \<Rightarrow> string option \<Rightarrow> string option
     \<Rightarrow> world \<Rightarrow> (exn + File) \<times> world" where
  "upload_try ev file validation_result file_path' uploaded_by' project_id' task_id' w =
     (let metadata' = get_file_metadata ev w file_path'
      in case getitem metadata' ''file_size'' of
           Inl e \<Rightarrow> (Inl e, w)
         | Inr nbytes \<Rightarrow>
             (case getitem metadata' ''mime_type'' of
                Inl e \<Rightarrow> (Inl e, w)
              | Inr mime \<Rightarrow>
                  (let file_record =
                         \<lparr>file_id = uuid4 ev (uuids w),
                          filename = secure_name validation_result,
                          original_filename = upload_filename file,
                          file_path = file_path',
                          file_size = nbytes,
                          mime_type = mime,
                          file_type = validated_type validation_result,
                          uploaded_by = uploaded_by',
                          project_id = project_id',
                          task_id = task_id',
                          metadata = metadata',
                          processing_status = ''pending'',
                          extracted_text = None\<rparr>;
                       w1 = w\<lparr>uuids := Suc (uuids w)\<rparr>
                   in case db_commit ev file_record w1 of
                        (Inl e, w2) \<Rightarrow> (Inl e, w2)
                      | (Inr u, w2) \<Rightarrow>
                          (case process_file ev file_record w2 of
                             (Some e, r, w3) \<Rightarrow> (Inl e, w3)
                           | (None, r, w3) \<Rightarrow> (Inr r, w3)))))"

text \<open>
  \<open>upload_file\<close>: validation raises before anything is written; a failure of
  \<open>save_file\<close> is outside the \<open>try\<close> and passes through; a failure inside the
  \<open>try\<close> removes the blob, if it exists, and becomes a 500.
\<close>

definition upload_file ::
  "env \<Rightarrow> UploadFile \<Rightarrow> string \<Rightarrow> string option \<Rightarrow> string option \<Rightarrow> world
     \<Rightarrow> (exn + File) \<times> world" where
  "upload_file ev file uploaded_by' project_id' task_id' w =
     (case validate_file ev file of
        Inl e \<Rightarrow> (Inl e, w)
      | Inr validation_result \<Rightarrow>
          (case save_file ev file w of
             (Inl e, w1) \<Rightarrow> (Inl e, w1)
           | (Inr file_path', w1) \<Rightarrow>
               (case upload_try ev file validation_result file_path' uploaded_by'
                       project_id' task_id' w1 of
                  (Inr file_record, w2) \<Rightarrow> (Inr file_record, w2)
                | (Inl e, w2) \<Rightarrow>
                    (case (if exists w2 file_path' then os_remove ev file_path' w2
                           else (Inr (), w2)) of
                       (Inl e', w3) \<Rightarrow> (Inl e', w3)
                     | (Inr u, w3) \<Rightarrow>
                         (Inl (HTTPException 500 (''File upload failed: '' @ exn_str e)),
                          w3)))))"

subsection \<open>Reconciliation\<close>

text \<open>
  \<open>cleanup_orphaned_files\<close>: the files under the upload directory whose path no row
  holds are removed one by one; a removal that raises is passed over.  The result is the
  number of orphaned paths, removed or not.
\<close>

definition under_dir :: "path \<Rightarrow> path \<Rightarrow> bool" where
  "under_dir dir p = (startswith (dir @ ''/'') p \<and> length (dir @ ''/'') < length p)"

definition orphaned_files :: "env \<Rightarrow> world \<Rightarrow> path list" where
  "orphaned_files ev w =
     (let db_files = map file_path (db w);
          disk_files = filter (under_dir (upload_dir ev)) (map fst (disk w))
      in remdups (filter (\<lambda>p. p \<notin> set db_files) disk_files))"

definition cleanup_orphaned_files :: "env \<Rightarrow> world \<Rightarrow> nat \<times> world" where
  "cleanup_orphaned_files ev w =
     (let orphaned = orphaned_files ev w
      in (length orphaned, fold (\<lambda>p w'. snd (os_remove ev p w')) orphaned w))"

section \<open>Terms of the statements\<close>

subsection \<open>Extraction without the length check\<close>

text \<open>
  What each accumulating extractor would return if its loop had no length check: the
  page texts that are not empty, the paragraphs with something left after stripping, and
  the lines of the rows, joined by newlines.
\<close>

definition pdf_text :: "string list \<Rightarrow> string" where
  "pdf_text pages = join nl (filter (\<lambda>page. page \<noteq> []) pages)"

definition docx_text :: "string list \<Rightarrow> string" where
  "docx_text paragraphs = join nl (filter (\<lambda>paragraph. strip paragraph \<noteq> []) paragraphs)"

fun csv_lines :: "nat \<Rightarrow> string list list \<Rightarrow> string list" where
  "csv_lines row_num [] = []"
| "csv_lines row_num (row # rows) = csv_line row_num row # csv_lines (Suc row_num) rows"

definition csv_text :: "string list list \<Rightarrow> string" where
  "csv_text rows = join nl (csv_lines 0 rows)"

text \<open>
  \<open>capped result full\<close>: over 50,000 characters the result is the prefix of exactly
  that length, otherwise it is the full text.
\<close>

definition capped :: "string option \<Rightarrow> string \<Rightarrow> bool" where
  "capped result full =
     ((50000 < length full \<longrightarrow>
         (\<exists>s. result = Some s \<and> length s = 50000 \<and> prefix s full)) \<and>
      (length full \<le> 50000 \<longrightarrow> result = Some full))"

subsection \<open>Example inputs\<close>

definition big :: string where
  "big = replicate 50001 (CHR ''a'')"

definition rd_cap :: readers where
  "rd_cap = \<lparr>
     read_utf8 = (\<lambda>p. if p = ''bad.txt'' then Inl (UnicodeDecodeError ''invalid start byte'')
                       else if p = ''n.md'' then Inr ''# Title''
                       else Inr big),
     read_latin1 = (\<lambda>p. Inr ''cafe''),
     PdfReader_pages = (\<lambda>p. Inr [Inr big, Inr ''tail'']),
     Document_paragraphs = (\<lambda>p. Inr [''one'', '' '', ''two'']),
     csv_sample = (\<lambda>p. Inr ''a,b''),
     csv_sniff = (\<lambda>s. Inr (CHR '','')),
     csv_reader = (\<lambda>p d. [Inr [''a'', ''b'']]) \<rparr>"

text \<open>
  An environment in which nothing fails: the sanitiser drops slashes, the n-th uuid is
  \<open>u\<close> followed by n, every file sniffs as plain text.
\<close>

definition env0 :: env where
  "env0 = \<lparr>
     upload_dir = ''uploads'',
     secure_filename = filter (\<lambda>c. c \<noteq> CHR ''/''),
     uuid4 = (\<lambda>n. ''u'' @ str_nat n),
     magic_from_file = (\<lambda>p content. Inr ''text/plain''),
     sha256_hexdigest = (\<lambda>content. ''digest-of-'' @ content),
     open_error = (\<lambda>p. None),
     write_error = (\<lambda>p. None),
     remove_error = (\<lambda>p. None),
     commit_error = (\<lambda>n. None),
     text_extractor = (\<lambda>p mime. Inr (Some ''hello world'')),
     audio_get_metadata = (\<lambda>p. Inr [''duration'' \<mapsto> PyInt 3]) \<rparr>"

definition world0 :: world where
  "world0 = \<lparr>disk = [], db = [], committed = [], uuids = 0, commits = 0\<rparr>"

definition no_name :: UploadFile where
  "no_name = \<lparr>upload_filename = Some [], upload_size = Some 5, upload_content = ''hello''\<rparr>"

definition too_large :: UploadFile where
  "too_large = \<lparr>upload_filename = Some ''scan.png'', upload_size = Some 52428801,
                  upload_content = ''hello''\<rparr>"

definition only_slashes :: UploadFile where
  "only_slashes = \<lparr>upload_filename = Some ''//'', upload_size = Some 5, upload_content = ''hello''\<rparr>"

definition executable :: UploadFile where
  "executable = \<lparr>upload_filename = Some ''setup.exe'', upload_size = None, upload_content = ''hello''\<rparr>"

definition undeclared_size :: UploadFile where
  "undeclared_size = \<lparr>upload_filename = Some ''dump.txt'', upload_size = None,
                        upload_content = replicate 52428801 (CHR ''x'')\<rparr>"

subsection \<open>CSV lines as the specification words them\<close>

text \<open>
  The line of a row when its cells are joined by the detected delimiter, which is what
  the specification says of the CSV extractor.
\<close>

definition delimiter_joined_line :: "char \<Rightarrow> nat \<Rightarrow> string list \<Rightarrow> string" where
  "delimiter_joined_line delimiter row_num row =
     (if row_num = 0 then ''Headers: '' @ join [delimiter] row
      else ''Row '' @ str_nat row_num @ '': '' @ join [delimiter] row)"

definition rd_semicolon :: readers where
  "rd_semicolon = \<lparr>
     read_utf8 = (\<lambda>p. Inr ''a;b\<newline>1;2''),
     read_latin1 = (\<lambda>p. Inr ''a;b\<newline>1;2''),
     PdfReader_pages = (\<lambda>p. Inl (Exception ''EOF marker not found'')),
     Document_paragraphs = (\<lambda>p. Inl (Exception ''File is not a zip file'')),
     csv_sample = (\<lambda>p. Inr ''a;b\<newline>1;2''),
     csv_sniff = (\<lambda>s. if s = ''a;b\<newline>1;2'' then Inr (CHR '';'')
                       else Inl (Exception ''Could not determine delimiter'')),
     csv_reader = (\<lambda>p d. if d = CHR '';'' then [Inr [''a'', ''b''], Inr [''1'', ''2'']]
                          else [Inr [''a;b''], Inr [''1;2'']]) \<rparr>"

definition rd_comma :: readers where
  "rd_comma = \<lparr>
     read_utf8 = (\<lambda>p. Inr ''a,b\<newline>1,2\<newline>3,4''),
     read_latin1 = (\<lambda>p. Inr ''a,b\<newline>1,2\<newline>3,4''),
     PdfReader_pages = (\<lambda>p. Inl (Exception ''EOF marker not found'')),
     Document_paragraphs = (\<lambda>p. Inl (Exception ''File is not a zip file'')),
     csv_sample = (\<lambda>p. Inr ''a,b\<newline>1,2\<newline>3,4''),
     csv_sniff = (\<lambda>s. if s = ''a,b\<newline>1,2\<newline>3,4'' then Inr (CHR '','')
                       else Inl (Exception ''Could not determine delimiter'')),
     csv_reader = (\<lambda>p d. if d = CHR '','' then [Inr [''a'', ''b''], Inr [''1'', ''2''], Inr [''3'', ''4'']]
                          else [Inr [''a,b''], Inr [''1,2''], Inr [''3,4'']]) \<rparr>"

definition md_lines :: "string list" where
  "md_lines = [''# Title'', ''use `f` now'', ''*bold* text'',
               ''see [1] and [docs](http://d) here'', ''plain'']"

subsection \<open>Terms of the upload statements\<close>

text \<open>
  The path \<open>save_file\<close> chooses, the state it leaves, the metadata computed from the
  stored file, the record as \<open>upload_file\<close> constructs it, and the state after its
  first commit; the dictionary \<open>get_file_metadata\<close> falls back to; and the keys that
  \<open>process_file\<close> may write into the metadata of a record.
\<close>

definition stored_path :: "env \<Rightarrow> UploadFile \<Rightarrow> world \<Rightarrow> path" where
  "stored_path ev file w =
     upload_dir ev @ ''/'' @ uuid4 ev (uuids w)
       @ path_suffix (case upload_filename file of None \<Rightarrow> [] | Some name \<Rightarrow> name)"

definition after_save :: "env \<Rightarrow> UploadFile \<Rightarrow> world \<Rightarrow> world" where
  "after_save ev file w =
     w\<lparr>uuids := Suc (uuids w),
       disk := AList.update (stored_path ev file w) (upload_content file) (disk w)\<rparr>"

definition stored_metadata :: "env \<Rightarrow> UploadFile \<Rightarrow> world \<Rightarrow> dict" where
  "stored_metadata ev file w = get_file_metadata ev (after_save ev file w) (stored_path ev file w)"

definition pending_record ::
  "env \<Rightarrow> UploadFile \<Rightarrow> validation \<Rightarrow> string \<Rightarrow> string option \<Rightarrow> string option \<Rightarrow> world \<Rightarrow> File" where
  "pending_record ev file v u pid tid w =
     \<lparr>file_id = uuid4 ev (Suc (uuids w)),
      filename = secure_name v,
      original_filename = upload_filename file,
      file_path = stored_path ev file w,
      file_size = (case stored_metadata ev file w ''file_size'' of None \<Rightarrow> PyNone | Some x \<Rightarrow> x),
      mime_type = (case stored_metadata ev file w ''mime_type'' of None \<Rightarrow> PyNone | Some x \<Rightarrow> x),
      file_type = validated_type v,
      uploaded_by = u,
      project_id = pid,
      task_id = tid,
      metadata = stored_metadata ev file w,
      processing_status = ''pending'',
      extracted_text = None\<rparr>"

definition after_insert ::
  "env \<Rightarrow> UploadFile \<Rightarrow> validation \<Rightarrow> string \<Rightarrow> string option \<Rightarrow> string option \<Rightarrow> world \<Rightarrow> world" where
  "after_insert ev file v u pid tid w =
     (after_save ev file w)
       \<lparr>uuids := Suc (Suc (uuids w)),
        db := db_upsert (pending_record ev file v u pid tid w) (db w),
        committed := committed w @ [pending_record ev file v u pid tid w],
        commits := Suc (commits w)\<rparr>"

definition fallback_metadata :: "int \<Rightarrow> exn \<Rightarrow> dict" where
  "fallback_metadata n e =
     [''mime_type'' \<mapsto> PyStr ''application/octet-stream'', ''file_size'' \<mapsto> PyInt n,
      ''hash'' \<mapsto> PyNone, ''error'' \<mapsto> PyStr (exn_str e)]"

definition written_keys :: "env \<Rightarrow> File \<Rightarrow> string set" where
  "written_keys ev r =
     (if file_type r = ''audio''
      then (case audio_get_metadata ev (file_path r) of Inl e \<Rightarrow> {} | Inr audio_metadata \<Rightarrow> dom audio_metadata)
      else {})
     \<union> {''processing_error''}"

subsection \<open>Further example inputs\<close>

definition hello_txt :: UploadFile where
  "hello_txt = \<lparr>upload_filename = Some ''hello.txt'', upload_size = Some 11,
                  upload_content = ''hello world''\<rparr>"

definition photo_record :: File where
  "photo_record =
     \<lparr>file_id = ''u1'', filename = ''photo.png'', original_filename = Some ''photo.png'',
      file_path = ''uploads/u0.png'', file_size = PyInt 4, mime_type = PyStr ''image/png'',
      file_type = ''image'', uploaded_by = ''ann'', project_id = None, task_id = None,
      metadata = [''mime_type'' \<mapsto> PyStr ''image/png'', ''file_size'' \<mapsto> PyInt 4,
                  ''hash'' \<mapsto> PyStr ''digest-of-.PNG''],
      processing_status = ''pending'', extracted_text = None\<rparr>"

definition photo_world :: world where
  "photo_world = \<lparr>disk = [(''uploads/u0.png'', ''.PNG'')], db = [photo_record],
                   committed = [photo_record], uuids = 2, commits = 1\<rparr>"

definition song_record :: File where
  "song_record =
     \<lparr>file_id = ''u1'', filename = ''song.mp3'', original_filename = Some ''song.mp3'',
      file_path = ''uploads/u0.mp3'', file_size = PyInt 3, mime_type = PyStr ''audio/mpeg'',
      file_type = ''audio'', uploaded_by = ''ann'', project_id = None, task_id = None,
      metadata = [''mime_type'' \<mapsto> PyStr ''audio/mpeg'', ''file_size'' \<mapsto> PyInt 3,
                  ''hash'' \<mapsto> PyStr ''digest-of-ID3''],
      processing_status = ''pending'', extracted_text = None\<rparr>"

definition song_world :: world where
  "song_world = \<lparr>disk = [(''uploads/u0.mp3'', ''ID3'')], db = [song_record],
                  committed = [song_record], uuids = 2, commits = 1\<rparr>"

definition env_audio_fails :: env where
  "env_audio_fails = env0\<lparr>audio_get_metadata := (\<lambda>p. Inl (Exception ''no audio stream''))\<rparr>"

definition env_hash_fails :: env where
  "env_hash_fails = env0\<lparr>open_error := (\<lambda>p. Some ''Input/output error'')\<rparr>"

definition env_magic_fails :: env where
  "env_magic_fails = env0\<lparr>magic_from_file := (\<lambda>p content. Inl (Exception ''cannot open magic database''))\<rparr>"

definition failed_record :: File where
  "failed_record =
     \<lparr>file_id = ''u1'', filename = ''notes.txt'', original_filename = Some ''notes.txt'',
      file_path = ''uploads/u0.txt'', file_size = PyInt 5, mime_type = PyStr ''text/plain'',
      file_type = ''document'', uploaded_by = ''ann'', project_id = None, task_id = None,
      metadata = [''processing_error'' \<mapsto> PyStr ''cannot parse''],
      processing_status = ''failed'', extracted_text = None\<rparr>"

definition cluttered_world :: world where
  "cluttered_world =
     \<lparr>disk = [(''uploads/u0.txt'', ''notes''), (''uploads/stray.bin'', ''xx''),
              (''uploads/locked.bin'', ''yy''), (''elsewhere/keep.txt'', ''zz'')],
      db = [failed_record], committed = [failed_record], uuids = 2, commits = 3\<rparr>"

definition env_locked :: env where
  "env_locked = env0\<lparr>remove_error :=
     (\<lambda>p. if p = ''uploads/locked.bin'' then Some ''Permission denied'' else None)\<rparr>"

subsection \<open>Raising inside the extractors\<close>





subsection \<open>Link replacement as a relation\<close>

text \<open>
  \<open>is_link s label rest\<close>: the text \<open>s\<close> starts with \<open>[label](url)\<close>, where the
  label is not empty and has no closing bracket and the url is not empty and has no
  closing parenthesis, and goes on with \<open>rest\<close>.  \<open>links_replaced s out\<close>: \<open>out\<close> is
  \<open>s\<close> read from the left with every such link replaced by its label and every other
  character kept.
\<close>

definition is_link :: "string \<Rightarrow> string \<Rightarrow> string \<Rightarrow> bool" where
  "is_link s label rest =
     (\<exists>url. s = ''['' @ label @ '']('' @ url @ '')'' @ rest
        \<and> label \<noteq> [] \<and> CHR '']'' \<notin> set label
        \<and> url \<noteq> [] \<and> CHR '')'' \<notin> set url)"

inductive links_replaced :: "string \<Rightarrow> string \<Rightarrow> bool" where
  at_end: "links_replaced [] []"
| at_link: "is_link s label rest \<Longrightarrow> links_replaced rest out \<Longrightarrow> links_replaced s (label @ out)"
| no_link: "\<forall>label rest. \<not> is_link (c # cs) label rest \<Longrightarrow> links_replaced cs out
         \<Longrightarrow> links_replaced (c # cs) (c # out)"

subsection \<open>What processing writes into the metadata\<close>

text \<open>
  The entries \<open>process_file\<close> writes: the audio metadata, when the record is an audio
  file, the first commit has succeeded and the audio processor returns; and the
  description of the error, when the \<open>try\<close> block has raised.
\<close>

definition audio_written :: "env \<Rightarrow> File \<Rightarrow> world \<Rightarrow> dict" where
  "audio_written ev r w =
     (if file_type r = ''audio'' \<and> commit_error ev (commits w) = None
      then (case audio_get_metadata ev (file_path r) of
              Inl e \<Rightarrow> Map.empty
            | Inr audio_metadata \<Rightarrow> audio_metadata)
      else Map.empty)"

definition error_written :: "exn option \<Rightarrow> dict" where
  "error_written raised =
     (case raised of
        None \<Rightarrow> Map.empty
      | Some e \<Rightarrow> [''processing_error'' \<mapsto> PyStr (exn_str e)])"

definition env_audio_overwrites :: env where
  "env_audio_overwrites = env0\<lparr>audio_get_metadata :=
     (\<lambda>p. Inr [''duration'' \<mapsto> PyInt 3, ''mime_type'' \<mapsto> PyStr ''audio/mp3''])\<rparr>"

section \<open>Auxiliary facts\<close>

lemma join_snoc: "join sep (xs @ [x]) = (if xs = [] then x else join sep xs @ sep @ x)"
  by (induction sep xs rule: join.induct) auto

lemma join_append_prefix: "prefix (join sep xs) (join sep (xs @ ys))"
proof (induction ys rule: rev_induct)
  case Nil
  then show ?case by simp
next
  case (snoc y ys)
  have "prefix (join sep (xs @ ys)) (join sep ((xs @ ys) @ [y]))"
    by (simp only: join_snoc) (auto simp: prefix_def)
  with snoc show ?case
    by (metis append_assoc prefix_order.order_trans)
qed

lemma take_prefix_eq: "prefix a b \<Longrightarrow> n \<le> length a \<Longrightarrow> take n b = take n a"
  by (auto simp: prefix_def)

lemma truncate_of_prefix:
  assumes "prefix a b" "max_text_length < length a"
  shows "cap_text b = take max_text_length a"
proof -
  from assms have "length a \<le> length b" by (simp add: prefix_length_le)
  with assms show ?thesis
    by (simp add: cap_text_def take_prefix_eq)
qed

lemma pdf_loop_truncate:
  "length (join nl parts) \<le> max_text_length \<Longrightarrow>
   pdf_loop (map Inr texts) parts = Some (cap_text (join nl (parts @ filter (\<lambda>t. t \<noteq> []) texts)))"
proof (induction texts arbitrary: parts)
  case Nil
  then show ?case by (simp add: cap_text_def)
next
  case (Cons t texts)
  let ?parts' = "if t \<noteq> [] then parts @ [t] else parts"
  have split: "parts @ filter (\<lambda>t. t \<noteq> []) (t # texts) = ?parts' @ filter (\<lambda>t. t \<noteq> []) texts"
    by simp
  show ?case
  proof (cases "max_text_length < length (join nl ?parts')")
    case True
    have "cap_text (join nl (?parts' @ filter (\<lambda>t. t \<noteq> []) texts)) = take max_text_length (join nl ?parts')"
      using True by (intro truncate_of_prefix join_append_prefix)
    with True show ?thesis
      unfolding split by (simp add: Let_def)
  next
    case False
    then have "length (join nl ?parts') \<le> max_text_length" by simp
    from Cons.IH [OF this] False show ?thesis
      unfolding split by (simp add: Let_def)
  qed
qed

lemma docx_loop_truncate:
  "length (join nl parts) \<le> max_text_length \<Longrightarrow>
   docx_loop paragraphs parts = Some (cap_text (join nl (parts @ filter (\<lambda>t. strip t \<noteq> []) paragraphs)))"
proof (induction paragraphs arbitrary: parts)
  case Nil
  then show ?case by (simp add: cap_text_def)
next
  case (Cons t texts)
  let ?parts' = "if strip t \<noteq> [] then parts @ [t] else parts"
  have split: "parts @ filter (\<lambda>t. strip t \<noteq> []) (t # texts) = ?parts' @ filter (\<lambda>t. strip t \<noteq> []) texts"
    by simp
  show ?case
  proof (cases "max_text_length < length (join nl ?parts')")
    case True
    have "cap_text (join nl (?parts' @ filter (\<lambda>t. strip t \<noteq> []) texts)) = take max_text_length (join nl ?parts')"
      using True by (intro truncate_of_prefix join_append_prefix)
    with True show ?thesis
      unfolding split by (simp add: Let_def)
  next
    case False
    then have "length (join nl ?parts') \<le> max_text_length" by simp
    from Cons.IH [OF this] False show ?thesis
      unfolding split by (simp add: Let_def)
  qed
qed

lemma csv_loop_truncate:
  "length (join nl parts) \<le> max_text_length \<Longrightarrow>
   csv_loop n (map Inr rows) parts = Some (cap_text (join nl (parts @ csv_lines n rows)))"
proof (induction rows arbitrary: parts n)
  case Nil
  then show ?case by (simp add: cap_text_def)
next
  case (Cons row rows)
  let ?parts' = "parts @ [csv_line n row]"
  have split: "parts @ csv_lines n (row # rows) = ?parts' @ csv_lines (Suc n) rows"
    by simp
  show ?case
  proof (cases "max_text_length < length (join nl ?parts')")
    case True
    have "cap_text (join nl (?parts' @ csv_lines (Suc n) rows)) = take max_text_length (join nl ?parts')"
      using True by (intro truncate_of_prefix join_append_prefix)
    with True show ?thesis
      unfolding split by (simp add: Let_def)
  next
    case False
    then have "length (join nl ?parts') \<le> max_text_length" by simp
    from Cons.IH [OF this] False show ?thesis
      unfolding split by (simp add: Let_def)
  qed
qed

lemma capped_truncate: "capped (Some (cap_text full)) full"
  by (auto simp: capped_def cap_text_def max_text_length_def take_is_prefix)

lemma startswith_single: "startswith [c] s = (s \<noteq> [] \<and> hd s = c)"
  by (cases s) (auto simp: startswith_def)

lemma contains_single: "contains [c] s = (c \<in> set s)"
  by (induction s) (auto simp: startswith_def)

lemma replace_single: "replace [c] [] s = filter (\<lambda>x. x \<noteq> c) s"
  by (induction s) (auto simp: startswith_def)

lemma filter_replace_double:
  "filter (\<lambda>x. x \<noteq> c) (replace [c, c] [] s) = filter (\<lambda>x. x \<noteq> c) s"
proof (induction "[c, c]" "[] :: string" s rule: replace.induct)
  case 1
  then show ?case by simp
next
  case (2 x xs)
  show ?case
  proof (cases "startswith [c, c] (x # xs)")
    case True
    then obtain ys where "x = c" "xs = c # ys"
      by (cases xs) (auto simp: startswith_def)
    with 2 True show ?thesis by simp
  next
    case False
    with 2 show ?thesis by simp
  qed
qed

lemma replace_emphasis:
  "replace ''*'' [] (replace ''**'' [] s) = filter (\<lambda>x. x \<noteq> CHR ''*'') s"
  by (simp add: replace_single filter_replace_double)

lemma clean_lines_append: "clean_lines (xs @ ys) = clean_lines xs @ clean_lines ys"
  by (induction xs) auto

lemma split_on_join:
  "ls \<noteq> [] \<Longrightarrow> \<forall>l \<in> set ls. CHR 0x0A \<notin> set l \<Longrightarrow> split_on (CHR 0x0A) (join nl ls) = ls"
proof (induction nl ls rule: join.induct)
  case 1
  then show ?case by simp
next
  case (2 x)
  then show ?case
    by (induction x) (auto split: list.splits)
next
  case (3 x y ys)
  then have IH: "split_on (CHR 0x0A) (join nl (y # ys)) = y # ys" by simp
  have "CHR 0x0A \<notin> set x" using 3 by simp
  then have "split_on (CHR 0x0A) (x @ nl @ join nl (y # ys)) = x # y # ys"
    using IH by (induction x) (auto simp: nl_def)
  then show ?case by simp
qed

lemma match_link_at:
  assumes "text \<noteq> []" "CHR '']'' \<notin> set text" "url \<noteq> []" "CHR '')'' \<notin> set url"
  shows "match_link (''['' @ text @ '']('' @ url @ '')'' @ post) = Some (text, post)"
proof -
  have t: "takeWhile (\<lambda>x. x \<noteq> CHR '']'') (text @ '']('' @ url @ '')'' @ post) = text"
    using assms(2) by (induction "text") auto
  have d: "dropWhile (\<lambda>x. x \<noteq> CHR '']'') (text @ '']('' @ url @ '')'' @ post) = '']('' @ url @ '')'' @ post"
    using assms(2) by (induction "text") auto
  have t': "takeWhile (\<lambda>x. x \<noteq> CHR '')'') (url @ '')'' @ post) = url"
    using assms(4) by (induction url) auto
  have d': "dropWhile (\<lambda>x. x \<noteq> CHR '')'') (url @ '')'' @ post) = '')'' @ post"
    using assms(4) by (induction url) auto
  show ?thesis
    using assms(1,3) t d t' d' by (simp add: match_link_def)
qed

lemma re_sub_link_skip:
  "CHR ''['' \<notin> set pre \<Longrightarrow> re_sub_link (pre @ s) = pre @ re_sub_link s"
  by (induction pre) (auto simp: match_link_def)

lemma re_sub_link_at:
  assumes "CHR ''['' \<notin> set pre" "text \<noteq> []" "CHR '']'' \<notin> set text" "url \<noteq> []" "CHR '')'' \<notin> set url"
  shows "re_sub_link (pre @ ''['' @ text @ '']('' @ url @ '')'' @ post) = pre @ text @ re_sub_link post"
proof -
  have "re_sub_link (''['' @ text @ '']('' @ url @ '')'' @ post) = text @ re_sub_link post"
    using match_link_at [OF assms(2-5), of post] by simp
  with re_sub_link_skip [OF assms(1)] show ?thesis by simp
qed

lemma str_int_50: "str_int (max_file_size div (1024 * 1024)) = ''50''"
  by (simp add: max_file_size_def str_int_def str_nat.simps digit_def)

lemma all_allowed_text:
  "join '', '' all_allowed =
     ''.pdf, .docx, .txt, .csv, .md, .mp3, .wav, .m4a, .jpg, .jpeg, .png, .gif, .zip, .json, .xml''"
  by (simp add: all_allowed_def allowed_extensions_def)

lemma suffix_exe: "lower (path_suffix ''setup.exe'') = ''.exe''"
  by (simp add: lower_def path_suffix_def path_name_def rfind_dot_def isupper_def)

lemma suffix_dump: "lower (path_suffix ''dump.txt'') = ''.txt''"
  by (simp add: lower_def path_suffix_def path_name_def rfind_dot_def isupper_def)

lemma str_nat_digits:
  "str_nat 1 = ''1''" "str_nat 2 = ''2''" "str_nat (Suc 0) = ''1''" "str_nat (Suc (Suc 0)) = ''2''"
  by (simp_all add: str_nat.simps digit_def)

lemma csv_lines_zip:
  "csv_lines n rows = map (\<lambda>(i, row). csv_line i row) (zip [n..<n + length rows] rows)"
proof (induction rows arbitrary: n)
  case Nil
  then show ?case by simp
next
  case (Cons row rows)
  have "[n..<n + length (row # rows)] = n # [Suc n..<Suc n + length rows]"
    by (simp add: upt_rec)
  with Cons [of "Suc n"] show ?case by simp
qed

lemma csv_lines_rows:
  "csv_lines (Suc n) rows =
     map (\<lambda>(i, row). ''Row '' @ str_nat i @ '': '' @ join '', '' row)
       (zip [Suc n..<Suc n + length rows] rows)"
proof -
  have "(case x of (i, row) \<Rightarrow> csv_line i row) =
        (case x of (i, row) \<Rightarrow> ''Row '' @ str_nat i @ '': '' @ join '', '' row)"
    if "x \<in> set (zip [Suc n..<Suc n + length rows] rows)" for x
  proof -
    obtain i row where x: "x = (i, row)" by (cases x)
    with that have "i \<in> set [Suc n..<Suc n + length rows]" by (auto dest: set_zip_leftD)
    then have "i \<noteq> 0" by auto
    with x show ?thesis by (simp add: csv_line_def)
  qed
  then show ?thesis
    unfolding csv_lines_zip by (intro map_cong refl) 
qed

lemma contains_double: "contains [c, c] s \<Longrightarrow> c \<in> set s"
  by (induction s) (auto simp: startswith_def split: list.splits)

lemma contains_emphasis:
  "(contains ''**'' s \<or> contains ''*'' s) = (CHR ''*'' \<in> set s)"
  using contains_double [of "CHR ''*''" s] by (auto simp: contains_single)

lemma fence_has_backtick: "startswith ''```'' s \<Longrightarrow> CHR ''`'' \<in> set s \<and> \<not> startswith ''#'' s"
  by (cases s) (auto simp: startswith_def)

lemma clean_lines_concat: "clean_lines ls = concat (map (\<lambda>l. clean_lines [l]) ls)"
proof (induction ls)
  case Nil
  then show ?case by simp
next
  case (Cons l ls)
  have "clean_lines (l # ls) = clean_lines [l] @ clean_lines ls"
    using clean_lines_append [of "[l]" ls] by simp
  with Cons show ?case by simp
qed

lemma markdown_fenced_lines_kept:
  "clean_markdown ''```\<newline>x = 1\<newline>```'' = ''x = 1''"
  by (simp add: clean_markdown_def startswith_def)


lemma db_commit_ok:
  "commit_error ev (commits w) = None \<Longrightarrow>
   db_commit ev r w =
     (Inr (), w\<lparr>db := db_upsert r (db w), committed := committed w @ [r],
                commits := Suc (commits w)\<rparr>)"
  by (simp add: db_commit_def)

lemma db_upsert_member: "r \<in> set (db_upsert r rows)"
  by (auto simp: db_upsert_def)

lemma process_file_other:
  assumes "file_type r \<noteq> ''document''" "file_type r \<noteq> ''audio''"
    and "commit_error ev (commits w) = None" "commit_error ev (Suc (commits w)) = None"
  shows "process_file ev r w =
     (None, r\<lparr>processing_status := ''completed''\<rparr>,
      w\<lparr>db := db_upsert (r\<lparr>processing_status := ''completed''\<rparr>)
                 (db_upsert (r\<lparr>processing_status := ''processing''\<rparr>) (db w)),
        committed := committed w @ [r\<lparr>processing_status := ''processing''\<rparr>,
                                    r\<lparr>processing_status := ''completed''\<rparr>],
        commits := Suc (Suc (commits w))\<rparr>)"
  using assms by (simp add: process_file_def process_file_try_def db_commit_ok Let_def)

lemma process_file_extraction_error:
  assumes "file_type r = ''document''"
    and "text_extractor ev (file_path r) (mime_type r) = Inl e"
    and "commit_error ev (commits w) = None" "commit_error ev (Suc (commits w)) = None"
  shows "process_file ev r w =
     (None,
      r\<lparr>processing_status := ''failed'',
        metadata := (metadata r)(''processing_error'' \<mapsto> PyStr (exn_str e))\<rparr>,
      w\<lparr>db := db_upsert (r\<lparr>processing_status := ''failed'',
                   metadata := (metadata r)(''processing_error'' \<mapsto> PyStr (exn_str e))\<rparr>)
                 (db_upsert (r\<lparr>processing_status := ''processing''\<rparr>) (db w)),
        committed := committed w @ [r\<lparr>processing_status := ''processing''\<rparr>,
                      r\<lparr>processing_status := ''failed'',
                        metadata := (metadata r)(''processing_error'' \<mapsto> PyStr (exn_str e))\<rparr>],
        commits := Suc (Suc (commits w))\<rparr>)"
  using assms by (simp add: process_file_def process_file_try_def db_commit_ok Let_def)

lemma validate_file_name:
  "validate_file ev file = Inr v \<Longrightarrow> \<exists>name. upload_filename file = Some name \<and> name \<noteq> []"
  by (auto simp: validate_file_def split: option.splits if_splits)

lemma save_file_ok:
  assumes "upload_filename file = Some name" "write_error ev (stored_path ev file w) = None"
  shows "save_file ev file w = (Inr (stored_path ev file w), after_save ev file w)"
  using assms by (simp add: save_file_def stored_path_def after_save_def Let_def)

lemma stored_blob:
  "map_of (disk (after_save ev file w)) (stored_path ev file w) = Some (upload_content file)"
  by (simp add: after_save_def update_conv')

lemma stored_metadata_keys:
  "\<exists>x y. stored_metadata ev file w ''file_size'' = Some x
       \<and> stored_metadata ev file w ''mime_type'' = Some y"
  by (auto simp: stored_metadata_def get_file_metadata_def sniff_size_hash_def
      split: sum.splits option.splits)

lemma upload_try_inserted:
  assumes "commit_error ev (commits w) = None"
  shows "upload_try ev file v (stored_path ev file w) u pid tid (after_save ev file w) =
     (case process_file ev (pending_record ev file v u pid tid w) (after_insert ev file v u pid tid w) of
        (Some e, r, w3) \<Rightarrow> (Inl e, w3)
      | (None, r, w3) \<Rightarrow> (Inr r, w3))"
proof -
  obtain x y where xy: "stored_metadata ev file w ''file_size'' = Some x"
      "stored_metadata ev file w ''mime_type'' = Some y"
    using stored_metadata_keys by blast
  have c: "commit_error ev (commits ((after_save ev file w)\<lparr>uuids := Suc (uuids (after_save ev file w))\<rparr>)) = None"
    using assms by (simp add: after_save_def)
  show ?thesis
    using xy
    by (simp add: upload_try_def getitem_def Let_def db_commit_ok [OF c]
        stored_metadata_def [symmetric] pending_record_def after_insert_def)
      (simp add: after_save_def)
qed

lemma upload_file_accepted:
  assumes "validate_file ev file = Inr v"
    and "write_error ev (stored_path ev file w) = None"
    and "commit_error ev (commits w) = None"
    and "process_file ev (pending_record ev file v u pid tid w) (after_insert ev file v u pid tid w)
           = (None, r, w')"
  shows "upload_file ev file u pid tid w = (Inr r, w')"
proof -
  obtain name where "upload_filename file = Some name"
    using validate_file_name [OF assms(1)] by blast
  then show ?thesis
    using assms by (simp add: upload_file_def save_file_ok upload_try_inserted)
qed

lemma suffix_hello: "path_suffix ''hello.txt'' = ''.txt''"
  by (simp add: path_suffix_def path_name_def rfind_dot_def)

lemma lower_txt: "lower ''.txt'' = ''.txt''"
  by (simp add: lower_def isupper_def)

lemma validate_hello:
  "secure_filename ev ''hello.txt'' = ''hello.txt'' \<Longrightarrow>
   validate_file ev hello_txt =
     Inr \<lparr>secure_name = ''hello.txt'', validated_type = ''document'', extension = ''.txt''\<rparr>"
  by (simp add: validate_file_def hello_txt_def suffix_hello lower_txt max_file_size_def
      get_file_type_def all_allowed_def allowed_extensions_def Let_def)

lemma str_nat_0: "str_nat 0 = ''0''"
  by (simp add: str_nat.simps digit_def)

lemma process_file_returns:
  assumes "commit_error ev (commits w) = None" "commit_error ev (Suc (commits w)) = None"
  shows "\<exists>r' w'. process_file ev r w = (None, r', w') \<and> r' \<in> set (db w') \<and> disk w' = disk w
           \<and> file_path r' = file_path r \<and> mime_type r' = mime_type r \<and> file_size r' = file_size r"
proof -
  have c: "db_commit ev x (w\<lparr>db := d, committed := cs, commits := Suc (commits w)\<rparr>)
     = (Inr (), w\<lparr>db := db_upsert x d, committed := cs @ [x], commits := Suc (Suc (commits w))\<rparr>)"
    for x d cs
    using assms(2) by (simp add: db_commit_def)
  show ?thesis
    using assms(1)
    by (auto simp: process_file_def process_file_try_def Let_def db_commit_ok c db_upsert_member
        split: sum.splits option.splits)
qed

lemma stored_metadata_fallback:
  assumes "magic_from_file ev (stored_path ev file w) (upload_content file) = Inl e
           \<or> (\<exists>mime msg. magic_from_file ev (stored_path ev file w) (upload_content file) = Inr mime
                \<and> open_error ev (stored_path ev file w) = Some msg \<and> e = Exception msg)"
  shows "stored_metadata ev file w = fallback_metadata (int (length (upload_content file))) e"
  using assms stored_blob [of ev "file" w]
  by (auto simp: stored_metadata_def get_file_metadata_def sniff_size_hash_def getsize_def
      calculate_file_hash_def fallback_metadata_def)

lemma process_file_document_text:
  assumes "file_type r = ''document''"
    and "text_extractor ev (file_path r) (mime_type r) = Inr (Some t)" and "t \<noteq> []"
    and "commit_error ev (commits w) = None" "commit_error ev (Suc (commits w)) = None"
  shows "process_file ev r w =
     (None, r\<lparr>extracted_text := Some t, processing_status := ''completed''\<rparr>,
      w\<lparr>db := db_upsert (r\<lparr>extracted_text := Some t, processing_status := ''completed''\<rparr>)
                 (db_upsert (r\<lparr>processing_status := ''processing''\<rparr>) (db w)),
        committed := committed w @ [r\<lparr>processing_status := ''processing''\<rparr>,
                      r\<lparr>extracted_text := Some t, processing_status := ''completed''\<rparr>],
        commits := Suc (Suc (commits w))\<rparr>)"
  using assms by (simp add: process_file_def process_file_try_def db_commit_ok Let_def)

lemma os_remove_effect:
  "db (snd (os_remove ev p w)) = db w
   \<and> (\<forall>q. q \<noteq> p \<longrightarrow> map_of (disk (snd (os_remove ev p w))) q = map_of (disk w) q)
   \<and> (map_of (disk (snd (os_remove ev p w))) p = map_of (disk w) p
        \<or> map_of (disk (snd (os_remove ev p w))) p = None)"
  by (auto simp: os_remove_def delete_conv' split: option.splits)

lemma remove_all_effect:
  "db (fold (\<lambda>p w'. snd (os_remove ev p w')) ps w) = db w
   \<and> (\<forall>q. q \<notin> set ps \<longrightarrow>
          map_of (disk (fold (\<lambda>p w'. snd (os_remove ev p w')) ps w)) q = map_of (disk w) q)
   \<and> (\<forall>q. map_of (disk (fold (\<lambda>p w'. snd (os_remove ev p w')) ps w)) q = map_of (disk w) q
          \<or> map_of (disk (fold (\<lambda>p w'. snd (os_remove ev p w')) ps w)) q = None)"
proof (induction ps arbitrary: w)
  case Nil
  then show ?case by simp
next
  case (Cons p ps)
  let ?w1 = "snd (os_remove ev p w)"
  note s = os_remove_effect [of ev p w]
  note i = Cons.IH [of ?w1]
  show ?case
  proof (intro conjI allI impI)
    show "db (fold (\<lambda>p w'. snd (os_remove ev p w')) (p # ps) w) = db w"
      using s i by simp
  next
    fix q
    assume "q \<notin> set (p # ps)"
    then show "map_of (disk (fold (\<lambda>p w'. snd (os_remove ev p w')) (p # ps) w)) q = map_of (disk w) q"
      using s i by simp
  next
    fix q
    show "map_of (disk (fold (\<lambda>p w'. snd (os_remove ev p w')) (p # ps) w)) q = map_of (disk w) q
          \<or> map_of (disk (fold (\<lambda>p w'. snd (os_remove ev p w')) (p # ps) w)) q = None"
      using s i by (cases "q = p") (simp, metis, simp, metis)
  qed
qed

lemma orphaned_not_referenced:
  "p \<in> set (orphaned_files ev w) \<Longrightarrow>
     p \<notin> file_path ` set (db w) \<and> under_dir (upload_dir ev) p \<and> map_of (disk w) p \<noteq> None"
  by (auto simp: orphaned_files_def Let_def weak_map_of_SomeI map_of_eq_None_iff)

lemma orphaned_cluttered:
  "orphaned_files env_locked cluttered_world = [''uploads/stray.bin'', ''uploads/locked.bin'']"
  by (simp add: orphaned_files_def env_locked_def env0_def cluttered_world_def failed_record_def
      under_dir_def startswith_def)

lemma cleanup_cluttered:
  "cleanup_orphaned_files env_locked cluttered_world =
     (2, cluttered_world\<lparr>disk := [(''uploads/u0.txt'', ''notes''), (''uploads/locked.bin'', ''yy''),
                                   (''elsewhere/keep.txt'', ''zz'')]\<rparr>)"
  by (simp add: cleanup_orphaned_files_def orphaned_cluttered)
    (simp add: os_remove_def env_locked_def env0_def cluttered_world_def)

lemma TextExtractor_returns: "TextExtractor rd p mime \<noteq> Inl e"
  by (simp add: TextExtractor_def)

lemma repository_extractor_completes:
  assumes "text_extractor ev = TextExtractor rd" and "file_type r = ''document''"
    and "commit_error ev (commits w) = None" "commit_error ev (Suc (commits w)) = None"
  shows "\<exists>r' w'. process_file ev r w = (None, r', w') \<and> processing_status r' = ''completed''
           \<and> metadata r' = metadata r"
  using assms
  by (auto simp: process_file_def process_file_try_def TextExtractor_def db_commit_def Let_def)

lemma process_file_try_audio_written:
  assumes "process_file_try ev r w = (raised, r1, w1)"
  shows "metadata r1 = metadata r ++ audio_written ev r w"
  using assms
  by (auto simp: process_file_try_def audio_written_def Let_def db_commit_def
      split: option.splits sum.splits if_splits prod.splits)

lemma process_file_error_written:
  assumes "process_file ev r w = (res, r', w')" and "process_file_try ev r w = (raised, r1, w1)"
  shows "metadata r' = metadata r1 ++ error_written raised"
  using assms
  by (cases raised)
    (auto simp: process_file_def error_written_def Let_def split: prod.splits sum.splits)

lemma map_add_lookup: "(m ++ n) k = (if k \<in> dom n then n k else m k)"
  by (auto simp: map_add_def split: option.splits)

lemma written_dom:
  "dom (audio_written ev r w ++ error_written raised) \<subseteq> written_keys ev r"
  by (auto simp: audio_written_def error_written_def written_keys_def
      split: sum.splits option.splits if_splits)

lemma try_song_overwrites:
  "\<exists>r1 w1. process_file_try env_audio_overwrites song_record song_world = (None, r1, w1)"
  by (simp add: process_file_try_def env_audio_overwrites_def env0_def db_commit_def
      song_record_def song_world_def Let_def)

lemma try_song_fails:
  "\<exists>r1 w1. process_file_try env_audio_fails song_record song_world
     = (Some (Exception ''no audio stream''), r1, w1)"
  by (simp add: process_file_try_def env_audio_fails_def env0_def db_commit_def
      song_record_def song_world_def Let_def)

lemma match_link_is_link: "match_link s = Some (label, rest) \<longleftrightarrow> is_link s label rest"
proof
  assume m: "match_link s = Some (label, rest)"
  then obtain r1 where s: "s = CHR ''['' # r1"
    by (cases s) (auto simp: match_link_def split: if_splits)
  let ?t = "takeWhile (\<lambda>x. x \<noteq> CHR '']'') r1"
  let ?r2 = "dropWhile (\<lambda>x. x \<noteq> CHR '']'') r1"
  from m s have t: "?t = label" "label \<noteq> []"
    by (auto simp: match_link_def Let_def split: if_splits list.splits)
  from m s obtain rb r3 where r2: "?r2 = rb # CHR ''('' # r3"
    by (auto simp: match_link_def Let_def split: if_splits list.splits)
  have rb: "rb = CHR '']''"
    using hd_dropWhile [of "\<lambda>x. x \<noteq> CHR '']''" r1] r2 by auto
  let ?u = "takeWhile (\<lambda>x. x \<noteq> CHR '')'') r3"
  let ?r4 = "dropWhile (\<lambda>x. x \<noteq> CHR '')'') r3"
  from m s r2 have u: "?u \<noteq> []"
    by (auto simp: match_link_def Let_def split: if_splits list.splits)
  from m s r2 obtain rp where r4: "?r4 = rp # rest"
    by (auto simp: match_link_def Let_def split: if_splits list.splits)
  have rp: "rp = CHR '')''"
    using hd_dropWhile [of "\<lambda>x. x \<noteq> CHR '')''" r3] r4 by auto
  have "r1 = ?t @ ?r2" by simp
  moreover have "r3 = ?u @ ?r4" by simp
  ultimately have "s = ''['' @ label @ '']('' @ ?u @ '')'' @ rest"
    using s t(1) r2 rb r4 rp by (metis append_Cons append_Nil)
  moreover have "CHR '']'' \<notin> set label"
    using t(1) by (auto dest: set_takeWhileD)
  moreover have "CHR '')'' \<notin> set ?u"
    by (auto dest: set_takeWhileD)
  ultimately show "is_link s label rest"
    using t(2) u unfolding is_link_def by blast
next
  assume "is_link s label rest"
  then show "match_link s = Some (label, rest)"
    by (auto simp: is_link_def dest: match_link_at [where post = rest])
qed

lemma links_replaced_re_sub_link: "links_replaced s (re_sub_link s)"
proof (induction s rule: re_sub_link.induct)
  case 1
  show ?case by (simp add: links_replaced.at_end)
next
  case (2 c cs)
  show ?case
  proof (cases "match_link (c # cs)")
    case None
    then have "\<forall>label rest. \<not> is_link (c # cs) label rest"
      by (simp add: match_link_is_link [symmetric])
    moreover have "links_replaced cs (re_sub_link cs)"
      using 2 None by simp
    ultimately show ?thesis
      using None by (simp add: links_replaced.no_link)
  next
    case (Some a)
    obtain label rest where a: "a = (label, rest)" by (cases a)
    with Some have "is_link (c # cs) label rest"
      by (simp add: match_link_is_link)
    moreover have "links_replaced rest (re_sub_link rest)"
      using 2 Some a by simp
    ultimately show ?thesis
      using Some a by (simp add: links_replaced.at_link)
  qed
qed

lemma links_replaced_unique: "links_replaced s out \<Longrightarrow> out = re_sub_link s"
proof (induction rule: links_replaced.induct)
  case at_end
  show ?case by simp
next
  case (at_link s label rest out)
  then have m: "match_link s = Some (label, rest)"
    by (simp add: match_link_is_link)
  then obtain c cs where "s = c # cs"
    by (cases s) (auto simp: match_link_def)
  with m at_link show ?case by simp
next
  case (no_link c cs out)
  then have "match_link (c # cs) = None"
    by (cases "match_link (c # cs)") (auto simp: match_link_is_link)
  with no_link show ?case by simp
qed

lemma link_line_cleaned:
  assumes "\<not> startswith ''#'' k \<and> CHR ''`'' \<notin> set k \<and> CHR ''*'' \<notin> set k
        \<and> CHR ''['' \<in> set k \<and> CHR '']'' \<in> set k"
  shows "clean_lines [k] = [re_sub_link k]"
proof -
  have "\<not> startswith ''```'' k"
    using assms fence_has_backtick [of k] by blast
  then show ?thesis
    using assms contains_double [of "CHR ''*''" k]
    by (auto simp add: contains_single simp del: contains.simps)
qed













section \<open>Properties\<close>

subsection \<open>Errors raised during extraction\<close>




subsection \<open>Length cap of the extractors\<close>

text \<open>
  C2.  When the readers deliver their input without raising, every extractor (PDF, DOCX,
  plain text read as UTF-8 or, after a decoding error, as Latin-1, CSV, Markdown) returns
  the extraction unchanged if it has at most 50,000 characters, and otherwise a string of
  exactly 50,000 characters that is a prefix of the extraction without the length check.
\<close>

theorem extraction_length_cap:
  assumes "PdfReader_pages rd p1 = Inr (map Inr pages)"
    and "Document_paragraphs rd p2 = Inr paragraphs"
    and "read_utf8 rd p3 = Inr content"
    and "read_utf8 rd p4 = Inl (UnicodeDecodeError msg)" "read_latin1 rd p4 = Inr content'"
    and "csv_sample rd p5 = Inr sample" "csv_sniff rd sample = Inr delimiter"
        "csv_reader rd p5 delimiter = map Inr rows"
    and "read_utf8 rd p6 = Inr md"
  shows "capped (extract_from_pdf rd p1) (pdf_text pages)
       \<and> capped (extract_from_docx rd p2) (docx_text paragraphs)
       \<and> capped (extract_from_txt rd p3) content
       \<and> capped (extract_from_txt rd p4) content'
       \<and> capped (extract_from_csv rd p5) (csv_text rows)
       \<and> capped (extract_from_markdown rd p6) (clean_markdown md)"
proof -
  have "extract_from_pdf rd p1 = Some (cap_text (pdf_text pages))"
    using assms(1) pdf_loop_truncate [of "[]" pages]
    by (simp add: extract_from_pdf_def pdf_text_def)
  moreover have "extract_from_docx rd p2 = Some (cap_text (docx_text paragraphs))"
    using assms(2) docx_loop_truncate [of "[]" paragraphs]
    by (simp add: extract_from_docx_def docx_text_def)
  moreover have "extract_from_txt rd p3 = Some (cap_text content)"
    using assms(3) by (simp add: extract_from_txt_def)
  moreover have "extract_from_txt rd p4 = Some (cap_text content')"
    using assms(4,5) by (simp add: extract_from_txt_def)
  moreover have "extract_from_csv rd p5 = Some (cap_text (csv_text rows))"
    using assms(6,7,8) csv_loop_truncate [of "[]" 0 rows]
    by (simp add: extract_from_csv_def csv_text_def)
  moreover have "extract_from_markdown rd p6 = Some (cap_text (clean_markdown md))"
    using assms(9) by (simp add: extract_from_markdown_def)
  ultimately show ?thesis
    by (simp add: capped_truncate)
qed

theorem extraction_length_cap_witness:
  "50000 < length (pdf_text [big, ''tail''])
   \<and> length (docx_text [''one'', '' '', ''two'']) \<le> 50000
   \<and> 50000 < length big
   \<and> capped (extract_from_pdf rd_cap ''f.pdf'') (pdf_text [big, ''tail''])
   \<and> capped (extract_from_docx rd_cap ''f.docx'') (docx_text [''one'', '' '', ''two''])
   \<and> capped (extract_from_txt rd_cap ''f.txt'') big
   \<and> capped (extract_from_txt rd_cap ''bad.txt'') ''cafe''
   \<and> capped (extract_from_csv rd_cap ''f.csv'') (csv_text [[''a'', ''b'']])
   \<and> capped (extract_from_markdown rd_cap ''n.md'') (clean_markdown ''# Title'')"
proof -
  have "50000 < length (pdf_text [big, ''tail''])"
    by (simp add: pdf_text_def big_def nl_def)
  moreover have "length (docx_text [''one'', '' '', ''two'']) \<le> 50000"
    by (simp add: docx_text_def strip_def isspace_def nl_def)
  moreover have "50000 < length big"
    by (simp add: big_def)
  moreover note extraction_length_cap [of rd_cap "''f.pdf''" "[big, ''tail'']" "''f.docx''"
      "[''one'', '' '', ''two'']" "''f.txt''" big "''bad.txt''" "''invalid start byte''" "''cafe''"
      "''f.csv''" "''a,b''" "CHR '',''" "[[''a'', ''b'']]" "''n.md''" "''# Title''"]
  ultimately show ?thesis
    by (simp add: rd_cap_def)
qed

subsection \<open>Rejection at intake\<close>

text \<open>
  C3.  An upload that validation rejects fails with the client error of the first check
  it does not pass (400 for a missing or empty name, 413 for a declared size over 50 MiB,
  400 for a name that sanitises to nothing, 415 for an extension on no allow-list), and
  the state is the one before the call: no blob is written and no row is created.
\<close>

theorem upload_rejected_at_intake:
  "((upload_filename file = None \<or> upload_filename file = Some [])
      \<longrightarrow> upload_file ev file u pid tid w = (Inl (HTTPException 400 ''No filename provided''), w))
   \<and> (\<forall>name n. upload_filename file = Some name \<and> name \<noteq> [] \<and> upload_size file = Some n
         \<and> 50 * 1024 * 1024 < n
      \<longrightarrow> upload_file ev file u pid tid w =
            (Inl (HTTPException 413 ''File too large. Maximum size is 50MB''), w))
   \<and> (\<forall>name. upload_filename file = Some name \<and> name \<noteq> []
         \<and> (\<forall>n. upload_size file = Some n \<longrightarrow> n \<le> 50 * 1024 * 1024)
         \<and> secure_filename ev name = []
      \<longrightarrow> upload_file ev file u pid tid w = (Inl (HTTPException 400 ''Invalid filename''), w))
   \<and> (\<forall>name. upload_filename file = Some name \<and> name \<noteq> []
         \<and> (\<forall>n. upload_size file = Some n \<longrightarrow> n \<le> 50 * 1024 * 1024)
         \<and> secure_filename ev name \<noteq> []
         \<and> lower (path_suffix (secure_filename ev name)) \<notin> set (concat (map snd allowed_extensions))
      \<longrightarrow> upload_file ev file u pid tid w =
            (Inl (HTTPException 415
               ''File type not allowed. Supported: .pdf, .docx, .txt, .csv, .md, .mp3, .wav, .m4a, .jpg, .jpeg, .png, .gif, .zip, .json, .xml''), w))"
proof -
  have a: "upload_file ev file u pid tid w = (Inl e, w)" if "validate_file ev file = Inl e" for e
    using that by (simp add: upload_file_def)
  have m: "max_file_size = 50 * 1024 * 1024"
    by (simp add: max_file_size_def)
  have 1: "validate_file ev file = Inl (HTTPException 400 ''No filename provided'')"
    if "upload_filename file = None \<or> upload_filename file = Some []"
    using that by (auto simp: validate_file_def)
  have 2: "validate_file ev file = Inl (HTTPException 413 ''File too large. Maximum size is 50MB'')"
    if "upload_filename file = Some name" "name \<noteq> []" "upload_size file = Some n" "50 * 1024 * 1024 < n"
    for name n
    using that str_int_50 by (simp add: validate_file_def m)
  have 3: "validate_file ev file = Inl (HTTPException 400 ''Invalid filename'')"
    if "upload_filename file = Some name" "name \<noteq> []"
      "\<forall>n. upload_size file = Some n \<longrightarrow> n \<le> 50 * 1024 * 1024" "secure_filename ev name = []"
    for name
    using that by (auto simp: validate_file_def m split: option.splits)
  have 4: "validate_file ev file = Inl (HTTPException 415
               ''File type not allowed. Supported: .pdf, .docx, .txt, .csv, .md, .mp3, .wav, .m4a, .jpg, .jpeg, .png, .gif, .zip, .json, .xml'')"
    if "upload_filename file = Some name" "name \<noteq> []"
      "\<forall>n. upload_size file = Some n \<longrightarrow> n \<le> 50 * 1024 * 1024" "secure_filename ev name \<noteq> []"
      "lower (path_suffix (secure_filename ev name)) \<notin> set (concat (map snd allowed_extensions))"
    for name
    using that all_allowed_text
    by (auto simp: validate_file_def m Let_def all_allowed_def split: option.splits)
  show ?thesis
    using a 1 2 3 4 by blast
qed

theorem upload_rejected_at_intake_witness:
  "upload_file env0 no_name ''ann'' None None world0
     = (Inl (HTTPException 400 ''No filename provided''), world0)
   \<and> upload_file env0 too_large ''ann'' None None world0
     = (Inl (HTTPException 413 ''File too large. Maximum size is 50MB''), world0)
   \<and> upload_file env0 only_slashes ''ann'' None None world0
     = (Inl (HTTPException 400 ''Invalid filename''), world0)
   \<and> upload_file env0 executable ''ann'' None None world0
     = (Inl (HTTPException 415
          ''File type not allowed. Supported: .pdf, .docx, .txt, .csv, .md, .mp3, .wav, .m4a, .jpg, .jpeg, .png, .gif, .zip, .json, .xml''), world0)"
  using upload_rejected_at_intake [of no_name env0 "''ann''" None None world0]
    upload_rejected_at_intake [of too_large env0 "''ann''" None None world0]
    upload_rejected_at_intake [of only_slashes env0 "''ann''" None None world0]
    upload_rejected_at_intake [of executable env0 "''ann''" None None world0]
  by (simp add: no_name_def too_large_def only_slashes_def executable_def env0_def suffix_exe
      allowed_extensions_def)

subsection \<open>Failures while computing the identity of a file\<close>

text \<open>
  C4, as the claim states it, fails: when the stored file cannot be opened for hashing,
  the digest computation raises, and yet the upload completes and the row is persisted,
  with \<open>None\<close> as its hash.
\<close>

theorem digest_failure_aborts_counterexample:
  "calculate_file_hash env_hash_fails (after_save env_hash_fails hello_txt world0)
       (stored_path env_hash_fails hello_txt world0) = Inl (Exception ''Input/output error'')
   \<and> map file_path (db (snd (upload_file env_hash_fails hello_txt ''ann'' None None world0)))
       = [''uploads/u0.txt'']
   \<and> map processing_status
         (db (snd (upload_file env_hash_fails hello_txt ''ann'' None None world0)))
       = [''completed'']
   \<and> metadata (hd (db (snd (upload_file env_hash_fails hello_txt ''ann'' None None world0))))
         ''hash'' = Some PyNone"
proof -
  let ?v = "\<lparr>secure_name = ''hello.txt'', validated_type = ''document'', extension = ''.txt''\<rparr>"
  let ?pend = "pending_record env_hash_fails hello_txt ?v ''ann'' None None world0"
  let ?ins = "after_insert env_hash_fails hello_txt ?v ''ann'' None None world0"
  let ?done = "?pend\<lparr>extracted_text := Some ''hello world'', processing_status := ''completed''\<rparr>"
  have v: "validate_file env_hash_fails hello_txt = Inr ?v"
    by (rule validate_hello) (simp add: env_hash_fails_def env0_def)
  have p: "stored_path env_hash_fails hello_txt world0 = ''uploads/u0.txt''"
    by (simp add: stored_path_def env_hash_fails_def env0_def hello_txt_def world0_def
        str_nat_0 suffix_hello)
  have o: "open_error env_hash_fails ''uploads/u0.txt'' = Some ''Input/output error''"
    "write_error env_hash_fails ''uploads/u0.txt'' = None"
    "\<And>n. commit_error env_hash_fails n = None"
    "\<And>q m. text_extractor env_hash_fails q m = Inr (Some ''hello world'')"
    "magic_from_file env_hash_fails ''uploads/u0.txt'' (upload_content hello_txt) = Inr ''text/plain''"
    by (simp_all add: env_hash_fails_def env0_def)
  have h: "calculate_file_hash env_hash_fails (after_save env_hash_fails hello_txt world0)
       (stored_path env_hash_fails hello_txt world0) = Inl (Exception ''Input/output error'')"
    using stored_blob [of env_hash_fails hello_txt world0] o(1)
    by (simp add: calculate_file_hash_def p)
  have m: "stored_metadata env_hash_fails hello_txt world0
      = fallback_metadata 11 (Exception ''Input/output error'')"
    using stored_metadata_fallback [of env_hash_fails hello_txt world0 "Exception ''Input/output error''"]
      o(1,5)
    by (simp add: p) (simp add: hello_txt_def)
  have "process_file env_hash_fails ?pend ?ins
      = (None, ?done,
         ?ins\<lparr>db := db_upsert ?done (db_upsert (?pend\<lparr>processing_status := ''processing''\<rparr>) (db ?ins)),
           committed := committed ?ins @ [?pend\<lparr>processing_status := ''processing''\<rparr>, ?done],
           commits := Suc (Suc (commits ?ins))\<rparr>)"
    by (rule process_file_document_text) (simp_all add: o pending_record_def)
  from upload_file_accepted [OF v _ _ this]
  have "db (snd (upload_file env_hash_fails hello_txt ''ann'' None None world0))
      = db_upsert ?done (db_upsert (?pend\<lparr>processing_status := ''processing''\<rparr>) (db ?ins))"
    by (simp add: o p)
  also have "\<dots> = [?done]"
    by (simp add: after_insert_def world0_def db_upsert_def)
  finally have d: "db (snd (upload_file env_hash_fails hello_txt ''ann'' None None world0)) = [?done]" .
  have "file_path ?done = ''uploads/u0.txt''" "processing_status ?done = ''completed''"
    "metadata ?done ''hash'' = Some PyNone"
    by (simp_all add: pending_record_def p m fallback_metadata_def)
  with h d show ?thesis by simp
qed

text \<open>
  C4, amended.  When the blob is written and the commits succeed, a failure of the MIME
  sniffing or of the digest computation is caught by \<open>get_file_metadata\<close>: the
  metadata fall back to the generic binary MIME type, the size of the stored file, no
  hash and the description of the error, and the upload continues: the record is
  returned and persisted, and its blob stays on disk.
\<close>

theorem identity_failures_degrade:
  assumes "validate_file ev file = Inr v"
    and "write_error ev (stored_path ev file w) = None"
    and "commit_error ev (commits w) = None"
    and "commit_error ev (Suc (commits w)) = None"
    and "commit_error ev (Suc (Suc (commits w))) = None"
    and "magic_from_file ev (stored_path ev file w) (upload_content file) = Inl e
         \<or> (\<exists>mime msg. magic_from_file ev (stored_path ev file w) (upload_content file) = Inr mime
              \<and> open_error ev (stored_path ev file w) = Some msg \<and> e = Exception msg)"
  shows "stored_metadata ev file w = fallback_metadata (int (length (upload_content file))) e
       \<and> (\<exists>r w'. upload_file ev file u pid tid w = (Inr r, w')
             \<and> r \<in> set (db w')
             \<and> mime_type r = PyStr ''application/octet-stream''
             \<and> file_size r = PyInt (int (length (upload_content file)))
             \<and> map_of (disk w') (file_path r) = Some (upload_content file))"
proof -
  let ?pend = "pending_record ev file v u pid tid w"
  let ?ins = "after_insert ev file v u pid tid w"
  have m: "stored_metadata ev file w = fallback_metadata (int (length (upload_content file))) e"
    using stored_metadata_fallback [OF assms(6)] .
  have c: "commit_error ev (commits ?ins) = None" "commit_error ev (Suc (commits ?ins)) = None"
    using assms(4,5) by (simp_all add: after_insert_def)
  obtain r w' where p: "process_file ev ?pend ?ins = (None, r, w')"
    and r: "r \<in> set (db w')" "disk w' = disk ?ins" "file_path r = file_path ?pend"
      "mime_type r = mime_type ?pend" "file_size r = file_size ?pend"
    using process_file_returns [OF c, of ?pend] by blast
  have "upload_file ev file u pid tid w = (Inr r, w')"
    using upload_file_accepted [OF assms(1,2,3) p] .
  moreover have "mime_type r = PyStr ''application/octet-stream''"
    using r(4) m by (simp add: pending_record_def fallback_metadata_def)
  moreover have "file_size r = PyInt (int (length (upload_content file)))"
    using r(5) m by (simp add: pending_record_def fallback_metadata_def)
  moreover have "map_of (disk w') (file_path r) = Some (upload_content file)"
    using r(2,3) stored_blob [of ev "file" w]
    by (simp add: after_insert_def pending_record_def)
  ultimately show ?thesis
    using m r(1) by blast
qed

theorem identity_failures_degrade_witness:
  "stored_metadata env_hash_fails hello_txt world0
      = fallback_metadata 11 (Exception ''Input/output error'')
   \<and> (\<exists>r w'. upload_file env_hash_fails hello_txt ''ann'' None None world0 = (Inr r, w')
          \<and> r \<in> set (db w')
          \<and> mime_type r = PyStr ''application/octet-stream''
          \<and> file_size r = PyInt 11
          \<and> map_of (disk w') (file_path r) = Some ''hello world'')
   \<and> stored_metadata env_magic_fails hello_txt world0
      = fallback_metadata 11 (Exception ''cannot open magic database'')
   \<and> (\<exists>r w'. upload_file env_magic_fails hello_txt ''ann'' None None world0 = (Inr r, w')
          \<and> r \<in> set (db w')
          \<and> mime_type r = PyStr ''application/octet-stream''
          \<and> file_size r = PyInt 11
          \<and> map_of (disk w') (file_path r) = Some ''hello world'')"
proof -
  let ?v = "\<lparr>secure_name = ''hello.txt'', validated_type = ''document'', extension = ''.txt''\<rparr>"
  have v: "validate_file env_hash_fails hello_txt = Inr ?v"
    "validate_file env_magic_fails hello_txt = Inr ?v"
    by (rule validate_hello, simp add: env_hash_fails_def env0_def)
      (rule validate_hello, simp add: env_magic_fails_def env0_def)
  have o: "\<And>q. open_error env_hash_fails q = Some ''Input/output error''"
    "\<And>q. write_error env_hash_fails q = None"
    "\<And>n. commit_error env_hash_fails n = None"
    "\<And>q c. magic_from_file env_hash_fails q c = Inr ''text/plain''"
    "\<And>q. write_error env_magic_fails q = None"
    "\<And>n. commit_error env_magic_fails n = None"
    "\<And>q c. magic_from_file env_magic_fails q c = Inl (Exception ''cannot open magic database'')"
    by (simp_all add: env_hash_fails_def env_magic_fails_def env0_def)
  have l: "int (length (upload_content hello_txt)) = 11" "upload_content hello_txt = ''hello world''"
    by (simp_all add: hello_txt_def)
  from identity_failures_degrade [of env_hash_fails hello_txt ?v world0
      "Exception ''Input/output error''" "''ann''" None None]
    identity_failures_degrade [of env_magic_fails hello_txt ?v world0
      "Exception ''cannot open magic database''" "''ann''" None None]
  show ?thesis
    unfolding l by (simp add: v o)
qed

subsection \<open>Reconciliation\<close>

text \<open>
  C5.  \<open>cleanup_orphaned_files\<close> leaves the table alone and leaves the blob at the
  path of every row as it was, whatever the processing status of the row; a path whose
  content changes is removed, lies under the upload directory and is the path of no row.
  The count returned is the number of orphaned paths.
\<close>

theorem reconciliation_keeps_referenced_blobs:
  assumes "cleanup_orphaned_files ev w = (n, w')"
  shows "db w' = db w
       \<and> (\<forall>r \<in> set (db w). map_of (disk w') (file_path r) = map_of (disk w) (file_path r))
       \<and> (\<forall>p. map_of (disk w') p \<noteq> map_of (disk w) p \<longrightarrow>
              map_of (disk w') p = None \<and> p \<notin> file_path ` set (db w)
              \<and> under_dir (upload_dir ev) p)
       \<and> n = length (orphaned_files ev w)"
proof -
  have w': "w' = fold (\<lambda>p w'. snd (os_remove ev p w')) (orphaned_files ev w) w"
    and n: "n = length (orphaned_files ev w)"
    using assms by (simp_all add: cleanup_orphaned_files_def Let_def)
  note e = remove_all_effect [of ev "orphaned_files ev w" w, folded w']
  have "map_of (disk w') (file_path r) = map_of (disk w) (file_path r)" if "r \<in> set (db w)" for r
  proof -
    from that have "file_path r \<notin> set (orphaned_files ev w)"
      using orphaned_not_referenced [of "file_path r" ev w] by blast
    with e show ?thesis by blast
  qed
  moreover have "map_of (disk w') p = None \<and> p \<notin> file_path ` set (db w) \<and> under_dir (upload_dir ev) p"
    if "map_of (disk w') p \<noteq> map_of (disk w) p" for p
  proof -
    from that e have "p \<in> set (orphaned_files ev w)" by blast
    moreover from that e have "map_of (disk w') p = None" by blast
    ultimately show ?thesis
      using orphaned_not_referenced [of p ev w] by blast
  qed
  ultimately show ?thesis
    using e n by blast
qed

theorem reconciliation_keeps_referenced_blobs_witness:
  "cleanup_orphaned_files env_locked cluttered_world =
     (2, cluttered_world\<lparr>disk := [(''uploads/u0.txt'', ''notes''), (''uploads/locked.bin'', ''yy''),
                                   (''elsewhere/keep.txt'', ''zz'')]\<rparr>)
   \<and> processing_status failed_record = ''failed''
   \<and> failed_record \<in> set (db cluttered_world)
   \<and> map_of (disk (snd (cleanup_orphaned_files env_locked cluttered_world))) (file_path failed_record)
       = Some ''notes''"
  using reconciliation_keeps_referenced_blobs [OF cleanup_cluttered]
  by (simp add: cleanup_cluttered) (simp add: cluttered_world_def failed_record_def)

subsection \<open>Files that are neither documents nor audio\<close>

text \<open>
  C6, as the claim states it, fails: the row of an image is committed as
  \<open>processing\<close> between \<open>pending\<close> and \<open>completed\<close>.
\<close>

theorem image_passes_through_processing_counterexample:
  "map processing_status (committed (snd (snd (process_file env0 photo_record photo_world))))
     = [''pending'', ''processing'', ''completed'']"
  by (simp add: process_file_def process_file_try_def db_commit_def env0_def photo_record_def
      photo_world_def db_upsert_def Let_def)

text \<open>
  C6, amended.  For a record whose category is neither document nor audio, when the two
  commits succeed, no extraction is attempted (the outcome does not depend on the text
  extractor or the audio processor), the blobs are untouched, and the record goes from its
  state before through a committed \<open>processing\<close> state to \<open>completed\<close>.
\<close>

theorem no_extraction_for_other_categories:
  assumes "file_type r \<noteq> ''document''" and "file_type r \<noteq> ''audio''"
    and "commit_error ev (commits w) = None" and "commit_error ev (Suc (commits w)) = None"
  shows "\<exists>w'. process_file ev r w = (None, r\<lparr>processing_status := ''completed''\<rparr>, w')
           \<and> committed w' = committed w @ [r\<lparr>processing_status := ''processing''\<rparr>,
                                             r\<lparr>processing_status := ''completed''\<rparr>]
           \<and> disk w' = disk w
           \<and> process_file (ev\<lparr>text_extractor := extractor, audio_get_metadata := audio\<rparr>) r w
               = process_file ev r w"
proof -
  have "process_file (ev\<lparr>text_extractor := extractor, audio_get_metadata := audio\<rparr>) r w
          = process_file ev r w"
    using assms
    process_file_other [of r "ev\<lparr>text_extractor := extractor, audio_get_metadata := audio\<rparr>" w]
    process_file_other [of r ev w]
    by simp
  then show ?thesis
    using process_file_other [OF assms] by simp
qed

theorem no_extraction_for_other_categories_witness:
  "\<exists>w'. process_file env0 photo_record photo_world
            = (None, photo_record\<lparr>processing_status := ''completed''\<rparr>, w')
         \<and> committed w' = committed photo_world
              @ [photo_record\<lparr>processing_status := ''processing''\<rparr>,
                 photo_record\<lparr>processing_status := ''completed''\<rparr>]
         \<and> disk w' = disk photo_world
         \<and> process_file (env0\<lparr>text_extractor := (\<lambda>p mime. Inl (Exception ''never called'')),
                                audio_get_metadata := (\<lambda>p. Inl (Exception ''never called''))\<rparr>)
               photo_record photo_world
             = process_file env0 photo_record photo_world"
  using no_extraction_for_other_categories [where r = photo_record and ev = env0
      and w = photo_world and extractor = "\<lambda>p mime. Inl (Exception ''never called'')"
      and audio = "\<lambda>p. Inl (Exception ''never called'')"]
  by (simp add: photo_record_def env0_def photo_world_def)

subsection \<open>Rendering of CSV rows\<close>

text \<open>
  C7, as the claim states it, fails: for the content \<open>a;b\<close>, \<open>1;2\<close> the sniffed
  delimiter is the semicolon, and the cells of the extracted lines are joined by a comma
  and a space, not by the semicolon.
\<close>

theorem csv_cells_joined_by_delimiter_counterexample:
  "extract_from_csv rd_semicolon ''f.csv'' = Some ''Headers: a, b\<newline>Row 1: 1, 2''
   \<and> extract_from_csv rd_semicolon ''f.csv''
       \<noteq> Some (join nl [delimiter_joined_line (CHR '';'') 0 [''a'', ''b''],
                          delimiter_joined_line (CHR '';'') 1 [''1'', ''2'']])"
  by (simp add: extract_from_csv_def rd_semicolon_def csv_line_def delimiter_joined_line_def
      str_nat_digits nl_def max_text_length_def)

text \<open>
  C7, amended.  The first row is rendered as a line \<open>Headers: ...\<close> and the N-th row
  after it as \<open>Row N: ...\<close>; the cells of a line are joined by a comma and a space
  whatever delimiter was detected, which only decides how the reader splits the rows into
  cells.  The lines are joined by newlines and the length cap applies.  The content
  \<open>a,b\<close>, \<open>1,2\<close>, \<open>3,4\<close> gives \<open>Headers: a, b\<close>, \<open>Row 1: 1, 2\<close>, \<open>Row 2: 3, 4\<close>.
\<close>

theorem csv_rendering:
  assumes "csv_sample rd p = Inr sample"
    and "csv_sniff rd sample = Inr delimiter"
    and "csv_reader rd p delimiter = map Inr (header # rows)"
  shows "extract_from_csv rd p =
     Some (cap_text (join nl
       ((''Headers: '' @ join '', '' header)
        # map (\<lambda>(n, row). ''Row '' @ str_nat n @ '': '' @ join '', '' row)
            (zip [1..<1 + length rows] rows))))"
proof -
  have "extract_from_csv rd p = Some (cap_text (join nl (csv_lines 0 (header # rows))))"
    using assms csv_loop_truncate [of "[]" 0 "header # rows"]
    by (simp add: extract_from_csv_def)
  moreover have "csv_lines 0 (header # rows) =
       (''Headers: '' @ join '', '' header)
        # map (\<lambda>(n, row). ''Row '' @ str_nat n @ '': '' @ join '', '' row)
            (zip [1..<1 + length rows] rows)"
    using csv_lines_rows [of 0 rows] by (simp add: csv_line_def)
  ultimately show ?thesis by simp
qed

theorem csv_rendering_witness:
  "extract_from_csv rd_comma ''f.csv'' = Some ''Headers: a, b\<newline>Row 1: 1, 2\<newline>Row 2: 3, 4''"
  using csv_rendering [of rd_comma "''f.csv''" "''a,b\<newline>1,2\<newline>3,4''" "CHR '',''"
      "[''a'', ''b'']" "[[''1'', ''2''], [''3'', ''4'']]"]
  by (simp add: rd_comma_def cap_text_def max_text_length_def str_nat_digits nl_def upt_rec)

subsection \<open>Cleaning of Markdown\<close>

text \<open>
  C8, as the claim states it, fails: the rules form one chain, so a heading keeps its
  inline code markers, a line with inline code keeps its emphasis markers, and a line
  with emphasis keeps its link syntax.
\<close>

theorem markdown_counterexample:
  "clean_markdown ''# `a`'' = ''`a`''
   \<and> clean_markdown ''`a` *b*'' = ''a *b*''
   \<and> clean_markdown ''*a* [t](u)'' = ''a [t](u)''"
  by (simp add: clean_markdown_def startswith_def lstrip_def strip_def isspace_def)

text \<open>
  C8, amended.  A Markdown text without fence lines is cleaned line by line, and a line
  gets the first rule that applies and no other: a line starting with \<open>#\<close> loses its
  leading \<open>#\<close> characters and the whitespace around the rest; a line starting with three
  backticks is dropped; otherwise a line with a backtick loses its backticks; otherwise a
  line with an asterisk loses its asterisks; otherwise a line with both square brackets
  is read from the left and has every \<open>[text](url)\<close>, with a text that is not empty
  and has no closing bracket and a url that is not empty and has no closing parenthesis,
  replaced by \<open>text\<close>, all other characters kept; any other line stays as it is.
\<close>

theorem markdown_first_rule_per_line:
  "(ls \<noteq> [] \<and> (\<forall>l \<in> set ls. CHR 0x0A \<notin> set l \<and> \<not> startswith ''```'' l)
        \<longrightarrow> clean_markdown (join nl ls) = join nl (concat (map (\<lambda>l. clean_lines [l]) ls)))
   \<and> (startswith ''#'' h
        \<longrightarrow> clean_lines [h] = [strip (dropWhile (\<lambda>c. c = CHR ''#'') h)])
   \<and> (startswith ''```'' f \<longrightarrow> clean_lines [f] = [])
   \<and> (\<not> startswith ''#'' c \<and> \<not> startswith ''```'' c \<and> CHR ''`'' \<in> set c
        \<longrightarrow> clean_lines [c] = [filter (\<lambda>x. x \<noteq> CHR ''`'') c])
   \<and> (\<not> startswith ''#'' e \<and> CHR ''`'' \<notin> set e \<and> CHR ''*'' \<in> set e
        \<longrightarrow> clean_lines [e] = [filter (\<lambda>x. x \<noteq> CHR ''*'') e])
   \<and> (\<not> startswith ''#'' k \<and> CHR ''`'' \<notin> set k \<and> CHR ''*'' \<notin> set k
        \<and> CHR ''['' \<in> set k \<and> CHR '']'' \<in> set k
        \<longrightarrow> (\<exists>out. clean_lines [k] = [out] \<and> links_replaced k out)
            \<and> (\<forall>out. links_replaced k out \<longrightarrow> clean_lines [k] = [out]))
   \<and> (\<not> startswith ''#'' q \<and> CHR ''`'' \<notin> set q \<and> CHR ''*'' \<notin> set q
        \<and> (CHR ''['' \<notin> set q \<or> CHR '']'' \<notin> set q)
        \<longrightarrow> clean_lines [q] = [q])"
proof (intro conjI impI)
  assume "ls \<noteq> [] \<and> (\<forall>l \<in> set ls. CHR 0x0A \<notin> set l \<and> \<not> startswith ''```'' l)"
  then have "split_on (CHR 0x0A) (join nl ls) = ls"
    by (intro split_on_join) auto
  then show "clean_markdown (join nl ls) = join nl (concat (map (\<lambda>l. clean_lines [l]) ls))"
    using clean_lines_concat [of ls] by (simp add: clean_markdown_def)
next
  assume "startswith ''#'' h"
  then show "clean_lines [h] = [strip (dropWhile (\<lambda>c. c = CHR ''#'') h)]"
    by (simp add: lstrip_def)
next
  assume "startswith ''```'' f"
  then show "clean_lines [f] = []"
    using fence_has_backtick [of f] by simp
next
  assume "\<not> startswith ''#'' c \<and> \<not> startswith ''```'' c \<and> CHR ''`'' \<in> set c"
  then show "clean_lines [c] = [filter (\<lambda>x. x \<noteq> CHR ''`'') c]"
    by (simp add: contains_single replace_single)
next
  assume a: "\<not> startswith ''#'' e \<and> CHR ''`'' \<notin> set e \<and> CHR ''*'' \<in> set e"
  then have "\<not> startswith ''```'' e"
    using fence_has_backtick [of e] by blast
  with a show "clean_lines [e] = [filter (\<lambda>x. x \<noteq> CHR ''*'') e]"
    by (auto simp add: contains_single replace_emphasis simp del: contains.simps)
next
  assume "\<not> startswith ''#'' k \<and> CHR ''`'' \<notin> set k \<and> CHR ''*'' \<notin> set k
        \<and> CHR ''['' \<in> set k \<and> CHR '']'' \<in> set k"
  then show "\<exists>out. clean_lines [k] = [out] \<and> links_replaced k out"
    using link_line_cleaned [of k] links_replaced_re_sub_link [of k] by simp
next
  assume a: "\<not> startswith ''#'' k \<and> CHR ''`'' \<notin> set k \<and> CHR ''*'' \<notin> set k
        \<and> CHR ''['' \<in> set k \<and> CHR '']'' \<in> set k"
  show "\<forall>out. links_replaced k out \<longrightarrow> clean_lines [k] = [out]"
  proof (intro allI impI)
    fix out
    assume "links_replaced k out"
    then have "out = re_sub_link k"
      by (rule links_replaced_unique)
    then show "clean_lines [k] = [out]"
      using link_line_cleaned [OF a] by simp
  qed
next
  assume a: "\<not> startswith ''#'' q \<and> CHR ''`'' \<notin> set q \<and> CHR ''*'' \<notin> set q
        \<and> (CHR ''['' \<notin> set q \<or> CHR '']'' \<notin> set q)"
  then have f: "\<not> startswith ''```'' q"
    using fence_has_backtick [of q] by blast
  with a show "clean_lines [q] = [q]"
    using contains_double [of "CHR ''*''" q]
    by (auto simp add: contains_single simp del: contains.simps)
qed

theorem markdown_first_rule_per_line_witness:
  "clean_markdown (join nl md_lines)
     = ''Title\<newline>use f now\<newline>bold text\<newline>see [1] and docs here\<newline>plain''
   \<and> clean_lines [''# Title''] = [''Title'']
   \<and> clean_lines [''```python''] = []
   \<and> clean_lines [''use `f` now''] = [''use f now'']
   \<and> clean_lines [''*bold* text''] = [''bold text'']
   \<and> clean_lines [''see [1] and [docs](http://d) here''] = [''see [1] and docs here'']
   \<and> links_replaced ''see [1] and [docs](http://d) here'' ''see [1] and docs here''
   \<and> clean_lines [''plain''] = [''plain'']"
  using markdown_first_rule_per_line [of md_lines
      "''# Title''" "''```python''" "''use `f` now''" "''*bold* text''"
      "''see [1] and [docs](http://d) here''" "''plain''"]
  by (simp add: md_lines_def startswith_def strip_def isspace_def lstrip_def match_link_def nl_def)

subsection \<open>Metadata are merged\<close>

text \<open>
  C9.  Whatever \<open>process_file\<close> does to the metadata of a record is a merge: the
  metadata afterwards are the metadata before overridden by the written entries, which
  are the audio metadata (for an audio file whose processor returns) and the
  \<open>processing_error\<close> entry (when the \<open>try\<close> block raised).  Every written key has
  the written value, whether the key was there before or not; every other key keeps its
  value; no key is lost.
\<close>

theorem metadata_is_merged:
  assumes "process_file ev r w = (res, r', w')"
    and "process_file_try ev r w = (raised, r1, w1)"
  shows "metadata r' = metadata r ++ (audio_written ev r w ++ error_written raised)
       \<and> (\<forall>k \<in> dom (audio_written ev r w ++ error_written raised).
             metadata r' k = (audio_written ev r w ++ error_written raised) k)
       \<and> (\<forall>k. k \<notin> dom (audio_written ev r w ++ error_written raised)
             \<longrightarrow> metadata r' k = metadata r k)
       \<and> dom (audio_written ev r w ++ error_written raised) \<subseteq> written_keys ev r
       \<and> dom (metadata r) \<subseteq> dom (metadata r')"
proof -
  let ?written = "audio_written ev r w ++ error_written raised"
  have m: "metadata r' = metadata r ++ ?written"
    using process_file_try_audio_written [OF assms(2)] process_file_error_written [OF assms]
    by simp
  have f1: "\<forall>k \<in> dom ?written. metadata r' k = ?written k"
    unfolding m by (simp only: map_add_lookup [of "metadata r"]) simp
  have f2: "\<forall>k. k \<notin> dom ?written \<longrightarrow> metadata r' k = metadata r k"
    unfolding m by (simp only: map_add_lookup [of "metadata r"]) simp
  have f3: "dom (metadata r) \<subseteq> dom (metadata r')"
    unfolding m by auto
  have d: "dom ?written \<subseteq> written_keys ev r"
    by (rule written_dom)
  show ?thesis
    using m f1 f2 d f3 by - (intro conjI; assumption)
qed

theorem metadata_is_merged_witness:
  "metadata (fst (snd (process_file env_audio_overwrites song_record song_world)))
     = [''mime_type'' \<mapsto> PyStr ''audio/mpeg'', ''file_size'' \<mapsto> PyInt 3,
        ''hash'' \<mapsto> PyStr ''digest-of-ID3'']
       ++ [''duration'' \<mapsto> PyInt 3, ''mime_type'' \<mapsto> PyStr ''audio/mp3'']
   \<and> metadata (fst (snd (process_file env_audio_overwrites song_record song_world))) ''mime_type''
     = Some (PyStr ''audio/mp3'')
   \<and> metadata (fst (snd (process_file env_audio_fails song_record song_world)))
     = [''mime_type'' \<mapsto> PyStr ''audio/mpeg'', ''file_size'' \<mapsto> PyInt 3,
        ''hash'' \<mapsto> PyStr ''digest-of-ID3'']
       ++ [''processing_error'' \<mapsto> PyStr ''no audio stream'']"
proof -
  have a: "audio_written env_audio_overwrites song_record song_world
      = [''duration'' \<mapsto> PyInt 3, ''mime_type'' \<mapsto> PyStr ''audio/mp3'']"
    "audio_written env_audio_fails song_record song_world = Map.empty"
    by (simp_all add: audio_written_def env_audio_overwrites_def env_audio_fails_def env0_def
        song_record_def song_world_def)
  have e: "error_written None = Map.empty"
    "error_written (Some (Exception ''no audio stream''))
      = [''processing_error'' \<mapsto> PyStr ''no audio stream'']"
    by (simp_all add: error_written_def)
  have m: "metadata song_record = [''mime_type'' \<mapsto> PyStr ''audio/mpeg'', ''file_size'' \<mapsto> PyInt 3,
        ''hash'' \<mapsto> PyStr ''digest-of-ID3'']"
    by (simp add: song_record_def)
  obtain res r w where p: "process_file env_audio_overwrites song_record song_world = (res, r, w)"
    by (cases "process_file env_audio_overwrites song_record song_world") auto
  obtain r1 w1 where t: "process_file_try env_audio_overwrites song_record song_world = (None, r1, w1)"
    using try_song_overwrites by blast
  obtain res' r' w' where p': "process_file env_audio_fails song_record song_world = (res', r', w')"
    by (cases "process_file env_audio_fails song_record song_world") auto
  obtain r1' w1' where t': "process_file_try env_audio_fails song_record song_world
      = (Some (Exception ''no audio stream''), r1', w1')"
    using try_song_fails by blast
  have "metadata r = metadata song_record
      ++ [''duration'' \<mapsto> PyInt 3, ''mime_type'' \<mapsto> PyStr ''audio/mp3'']"
    using metadata_is_merged [OF p t] by (simp add: a e)
  moreover have "metadata r' = metadata song_record
      ++ [''processing_error'' \<mapsto> PyStr ''no audio stream'']"
    using metadata_is_merged [OF p' t'] by (simp add: a e)
  ultimately show ?thesis
    by (simp add: p p' m)
qed

subsection \<open>Validation without a declared size\<close>

text \<open>
  C10.  When the declared size of an upload is unset (\<open>None\<close> or zero), validation
  makes no size check: it never fails with 413, its result does not depend on the
  content, and a payload with an acceptable name passes whatever its actual length.
\<close>

theorem no_size_check_without_declared_size:
  assumes "upload_size file = None \<or> upload_size file = Some 0"
  shows "(\<forall>code detail. validate_file ev file = Inl (HTTPException code detail) \<longrightarrow> code \<noteq> 413)
       \<and> (\<forall>content. validate_file ev (file\<lparr>upload_content := content\<rparr>) = validate_file ev file)
       \<and> (\<forall>name. upload_filename file = Some name \<and> name \<noteq> []
              \<and> secure_filename ev name \<noteq> []
              \<and> lower (path_suffix (secure_filename ev name)) \<in> set all_allowed
            \<longrightarrow> validate_file ev file =
                  Inr \<lparr>secure_name = secure_filename ev name,
                       validated_type = get_file_type (secure_filename ev name),
                       extension = lower (path_suffix (secure_filename ev name))\<rparr>)"
proof (intro conjI allI impI)
  fix code detail
  assume "validate_file ev file = Inl (HTTPException code detail)"
  with assms show "code \<noteq> 413"
    by (auto simp: validate_file_def Let_def split: option.splits if_splits)
next
  fix content
  show "validate_file ev (file\<lparr>upload_content := content\<rparr>) = validate_file ev file"
    by (simp add: validate_file_def cong: option.case_cong if_cong)
next
  fix name
  assume "upload_filename file = Some name \<and> name \<noteq> []
              \<and> secure_filename ev name \<noteq> []
              \<and> lower (path_suffix (secure_filename ev name)) \<in> set all_allowed"
  with assms show "validate_file ev file =
                  Inr \<lparr>secure_name = secure_filename ev name,
                       validated_type = get_file_type (secure_filename ev name),
                       extension = lower (path_suffix (secure_filename ev name))\<rparr>"
    by (auto simp: validate_file_def Let_def)
qed

theorem no_size_check_without_declared_size_witness:
  "upload_size undeclared_size = None
   \<and> max_file_size < int (length (upload_content undeclared_size))
   \<and> validate_file env0 undeclared_size =
        Inr \<lparr>secure_name = ''dump.txt'', validated_type = ''document'', extension = ''.txt''\<rparr>"
  using no_size_check_without_declared_size [of undeclared_size env0]
  by (simp add: undeclared_size_def env0_def suffix_dump all_allowed_def allowed_extensions_def
      get_file_type_def max_file_size_def)

end
